theory Spec2Isabelle
  imports Complex_Main "HOL-Library.Sublist"
begin

section \<open>Strings\<close>

text \<open>
  A JavaScript string is modelled as a \<^typ>\<open>string\<close>: each character stands for the
  UTF-16 code unit of the same number, so the model covers the strings whose code
  units are below 256. Within that range \<open>String.prototype.trim\<close> removes the code
  units 9 to 13, 32 and 160, and the line terminators (which \<open>.\<close> of a regular
  expression does not match) are 10 and 13.
\<close>

definition LF :: char where
  "LF = CHR 0x0A"

definition CR :: char where
  "CR = CHR 0x0D"

definition isWhiteSpace :: "char \<Rightarrow> bool" where
  "isWhiteSpace c =
     (c \<in> set [CHR 0x09, CHR 0x0A, CHR 0x0B, CHR 0x0C, CHR 0x0D, CHR 0x20, CHR 0xA0])"

definition isLineTerminator :: "char \<Rightarrow> bool" where
  "isLineTerminator c = (c = LF \<or> c = CR)"

definition trim :: "string \<Rightarrow> string" where
  "trim s = rev (dropWhile isWhiteSpace (rev (dropWhile isWhiteSpace s)))"

text \<open>
  \<open>toUpperCase\<close> and \<open>toLowerCase\<close> on the code units below 128. The program upper-cases
  only its own parameter names (ASCII literals) and lower-cases a value only to compare
  it with \<open>"true"\<close> and \<open>"false"\<close>; below 256 only the letters A to Z lower-case to an
  ASCII letter.
\<close>

definition toUpperChar :: "char \<Rightarrow> char" where
  "toUpperChar c =
     (case map_of (zip ''abcdefghijklmnopqrstuvwxyz'' ''ABCDEFGHIJKLMNOPQRSTUVWXYZ'') c of
        Some u \<Rightarrow> u
      | None \<Rightarrow> c)"

definition toLowerChar :: "char \<Rightarrow> char" where
  "toLowerChar c =
     (case map_of (zip ''ABCDEFGHIJKLMNOPQRSTUVWXYZ'' ''abcdefghijklmnopqrstuvwxyz'') c of
        Some l \<Rightarrow> l
      | None \<Rightarrow> c)"

definition toUpperCase :: "string \<Rightarrow> string" where
  "toUpperCase s = map toUpperChar s"

definition toLowerCase :: "string \<Rightarrow> string" where
  "toLowerCase s = map toLowerChar s"

section \<open>Thrown values\<close>

datatype Strategy = Replace | FailFast | UseExistingTag

text \<open>The string value of each member of the enum \<open>Strategy\<close>.\<close>

fun strategyValue :: "Strategy \<Rightarrow> string" where
  "strategyValue Replace = ''replace''"
| "strategyValue FailFast = ''fail-fast''"
| "strategyValue UseExistingTag = ''use-existing-tag''"

text \<open>
  What \<open>isHttpError\<close> reads of an error object it did not create: whether it has an own
  property \<open>status\<close>, and whether that property is a number.
\<close>

datatype status_prop = NoStatus | StatusNumber int | StatusOther

text \<open>
  Every value the program can throw or catch. \<open>JsError name message status\<close> is an
  instance of \<open>Error\<close> raised by a collaborator (the REST client, the file system);
  \<open>NonError\<close> is a thrown value that is not an instance of \<open>Error\<close>. The others are the
  program's own classes; \<open>ActionError\<close> carries its message and its inner error.
\<close>

text \<open>
  Modelled from the spec: the classes \<open>InputParameterRequiredError\<close> and
  \<open>InputParameterIncompatibleStrategyError\<close>, which \<open>main.mts\<close> imports from
  \<open>actions.mts\<close>, and the function \<open>unreachable\<close> of \<open>unreachable.mts\<close> are not among the
  sources. The spec calls the two classes the "missing required parameter" and the
  "incompatible parameter for strategy" errors; each is a constructor with the
  arguments \<open>main.mts\<close> gives it, and \<open>Unreachable\<close> is the error \<open>unreachable()\<close> returns.
\<close>

datatype thrown =
    JsError string string status_prop
  | NonError string
  | ActionError string "thrown option"
  | MissingInputParameterError string
  | InvalidInputParameterValueError string string
  | InputParameterRequiredError string
  | InputParameterIncompatibleStrategyError string Strategy
  | Unreachable

text \<open>
  \<open>isHttpError\<close> (error.mts): an instance of \<open>Error\<close> whose name is \<open>HttpError\<close> and
  which has an own property \<open>status\<close> of type number. The program's own errors never
  set a name, so theirs is \<open>Error\<close>.
\<close>

fun isHttpError :: "thrown \<Rightarrow> bool" where
  "isHttpError (JsError name msg st) =
     (if name \<noteq> ''HttpError'' then False
      else (case st of NoStatus \<Rightarrow> False | StatusOther \<Rightarrow> False | StatusNumber n \<Rightarrow> True))"
| "isHttpError e = False"

fun errStatus :: "thrown \<Rightarrow> status_prop" where
  "errStatus (JsError name msg st) = st"
| "errStatus e = NoStatus"

section \<open>Input parameters (actions.mts)\<close>

type_synonym environment = "string \<Rightarrow> string option"

definition getRawInput :: "environment \<Rightarrow> string \<Rightarrow> string" where
  "getRawInput env name =
     (case env (''INPUT_'' @ toUpperCase (map (\<lambda>c. if c = CHR '' '' then CHR ''_'' else c) name)) of
        None \<Rightarrow> []
      | Some v \<Rightarrow> v)"

text \<open>\<open>hasValue\<close>: throws for a required parameter that is empty.\<close>

definition hasValue :: "bool \<Rightarrow> string \<Rightarrow> string \<Rightarrow> thrown + bool" where
  "hasValue required name v =
     (if v = [] then (if required then Inl (MissingInputParameterError name) else Inr False)
      else Inr True)"

text \<open>
  \<open>getInput\<close> has two overloads; the program always leaves \<open>trim\<close> at its default,
  true. \<open>getInputRequired\<close> is \<open>getInput(name, true)\<close>, \<open>getInput\<close> is
  \<open>getInput(name)\<close> and \<open>getInput(name, false)\<close>, which never throws.
\<close>

definition getInputRequired :: "environment \<Rightarrow> string \<Rightarrow> thrown + string" where
  "getInputRequired env name =
     (let v = getRawInput env name in
      case hasValue True name v of
        Inl e \<Rightarrow> Inl e
      | Inr present \<Rightarrow> Inr (trim v))"

definition getInput :: "environment \<Rightarrow> string \<Rightarrow> string option" where
  "getInput env name =
     (let v = getRawInput env name in
      case hasValue False name v of
        Inl e \<Rightarrow> None
      | Inr present \<Rightarrow> if present then Some (trim v) else None)"

text \<open>
  \<open>getEnumInput(name, variants, true)\<close>: the variants are given with the value each
  string stands for.
\<close>

definition getEnumInput :: "environment \<Rightarrow> string \<Rightarrow> (string \<times> 'a) list \<Rightarrow> thrown + 'a" where
  "getEnumInput env name variants =
     (let v = getRawInput env name in
      case hasValue True name v of
        Inl e \<Rightarrow> Inl e
      | Inr present \<Rightarrow>
          (case map_of variants (trim v) of
             Some x \<Rightarrow> Inr x
           | None \<Rightarrow> Inl (InvalidInputParameterValueError name (trim v))))"

definition getBooleanInput :: "environment \<Rightarrow> string \<Rightarrow> thrown + bool option" where
  "getBooleanInput env name =
     (let v = getRawInput env name in
      case hasValue False name v of
        Inl e \<Rightarrow> Inl e
      | Inr present \<Rightarrow>
          if \<not> present then Inr None
          else if toLowerCase v = ''true'' then Inr (Some True)
          else if toLowerCase v = ''false'' then Inr (Some False)
          else Inl (InvalidInputParameterValueError name v))"

text \<open>\<open>value.split(/\r?\n/)\<close>.\<close>

fun splitLines :: "string \<Rightarrow> string list" where
  "splitLines [] = [[]]"
| "splitLines (c # cs) =
     (if c = LF then [] # splitLines cs
      else if c = CR \<and> cs \<noteq> [] \<and> hd cs = LF then [] # splitLines (tl cs)
      else (case splitLines cs of [] \<Rightarrow> [[c]] | l # ls \<Rightarrow> (c # l) # ls))"

text \<open>
  \<open>getMultilineInput(name)\<close>: the program passes no \<open>trim\<close>, so the entries are not
  trimmed; a last empty entry is dropped.
\<close>

definition getMultilineInput :: "environment \<Rightarrow> string \<Rightarrow> string list option" where
  "getMultilineInput env name =
     (let v = getRawInput env name in
      case hasValue False name v of
        Inl e \<Rightarrow> None
      | Inr present \<Rightarrow>
          if \<not> present then None
          else (let entries = splitLines v in
                Some (if last entries = [] then butlast entries else entries)))"

section \<open>Repository coordinates\<close>

text \<open>
  The match of \<open>/^(.*)\/(.*)$/\<close> against the whole input. The first group is greedy: it
  first takes the longest run of characters that are not line terminators, and gives
  one back at a time; \<open>trySplit full k\<close> tries the first group at length \<open>k\<close>, then at
  the shorter lengths. At length \<open>k\<close> the match needs a slash at index \<open>k\<close> and, after
  it, no line terminator up to the end of the input.
\<close>

definition splitsAt :: "string \<Rightarrow> nat \<Rightarrow> bool" where
  "splitsAt full k =
     (k < length full \<and> full ! k = CHR ''/'' \<and>
      list_all (\<lambda>c. \<not> isLineTerminator c) (drop (Suc k) full))"

fun trySplit :: "string \<Rightarrow> nat \<Rightarrow> (string \<times> string) option" where
  "trySplit full 0 =
     (if splitsAt full 0 then Some (take 0 full, drop (Suc 0) full) else None)"
| "trySplit full (Suc k) =
     (if splitsAt full (Suc k) then Some (take (Suc k) full, drop (Suc (Suc k)) full)
      else trySplit full k)"

definition matchRepo :: "string \<Rightarrow> (string \<times> string) option" where
  "matchRepo full = trySplit full (length (takeWhile (\<lambda>c. \<not> isLineTerminator c) full))"

definition getRepo :: "environment \<Rightarrow> thrown + (string \<times> string)" where
  "getRepo env =
     (case getInputRequired env ''repository'' of
        Inl e \<Rightarrow> Inl e
      | Inr fullRepoPath \<Rightarrow>
          (case matchRepo fullRepoPath of
             None \<Rightarrow>
               Inl (ActionError
                 (''repository is not in the <owner>/<repo> format: '' @ fullRepoPath) None)
           | Some (owner0, repo0) \<Rightarrow>
               (let owner = trim owner0; repo = trim repo0 in
                if owner = [] then
                  Inl (ActionError (''repository owner is invalid: '' @ owner) None)
                else if repo = [] then
                  Inl (ActionError (''repository name is invalid: '' @ repo) None)
                else Inr (owner, repo))))"

section \<open>The remote API, the trace and the world\<close>

text \<open>
  A call of the REST client, with the arguments the program passes. The arguments are,
  in order: \<open>GetRef owner repo ref\<close>, \<open>ListReleases owner repo\<close>,
  \<open>DeleteRelease owner repo release_id\<close>, \<open>UpdateRef owner repo ref sha force\<close>,
  \<open>CreateTag owner repo tag message object type\<close>, \<open>CreateRef owner repo ref sha\<close>,
  \<open>DeleteRef owner repo ref\<close>,
  \<open>CreateRelease owner repo name body tag_name discussion_category_name prerelease draft\<close>,
  \<open>ListReleaseAssets owner repo release_id\<close>, \<open>DeleteReleaseAsset owner repo asset_id\<close>,
  \<open>UploadReleaseAsset file content_length content_type name url\<close>. A sha that the
  program reads from \<open>config.targetSha\<close> is optional, as that field is.
\<close>

datatype api_call =
    GetRef string string string
  | ListReleases string string
  | DeleteRelease string string nat
  | UpdateRef string string string "string option" bool
  | CreateTag string string string string "string option" string
  | CreateRef string string string "string option"
  | DeleteRef string string string
  | CreateRelease string string string string string "string option" bool bool
  | ListReleaseAssets string string nat
  | DeleteReleaseAsset string string nat
  | UploadReleaseAsset string nat string string string

text \<open>
  What a run does, in order: each call of the REST client with whether it returned
  (\<open>True\<close>) or threw, each backoff sleep with its delay in milliseconds, each
  \<open>logger.error\<close> with its message and the error logged, and the output set at the end.
  The \<open>info\<close> and \<open>debug\<close> lines of the logger are not part of the model.
\<close>

datatype event =
    Call api_call bool
  | Sleep int
  | LogError string thrown
  | SetOutput string nat

datatype release = Release (release_id: nat) (tag_name: string)

datatype asset = Asset (asset_id: nat) (asset_name: string)

text \<open>
  Everything outside the program. The answer of the REST client to a call depends on
  the call and on everything the run has done so far, so any behaviour of the forge is
  a world; there is one answer function for each type of result the program reads (a
  ref's sha, the releases, the created release's id and upload url, the assets, and
  nothing). \<open>mathRandom\<close> is the value \<open>Math.random()\<close> returns at that point of the run.
\<close>

record world =
  processEnv :: environment
  readFile :: "string \<Rightarrow> thrown + string"
  globFiles :: "string list \<Rightarrow> thrown + string list"
  statSize :: "string \<Rightarrow> thrown + nat"
  mathRandom :: "event list \<Rightarrow> real"
  refResponse :: "event list \<Rightarrow> api_call \<Rightarrow> thrown + string"
  releasesResponse :: "event list \<Rightarrow> api_call \<Rightarrow> thrown + release list"
  releaseResponse :: "event list \<Rightarrow> api_call \<Rightarrow> thrown + nat \<times> string"
  assetsResponse :: "event list \<Rightarrow> api_call \<Rightarrow> thrown + asset list"
  unitResponse :: "event list \<Rightarrow> api_call \<Rightarrow> thrown + unit"

text \<open>
  An asynchronous operation takes the trace so far and returns the trace it leaves with
  what it threw (\<open>Inl\<close>) or returned (\<open>Inr\<close>).
\<close>

type_synonym 'a io = "event list \<Rightarrow> event list \<times> (thrown + 'a)"

definition call :: "(event list \<Rightarrow> api_call \<Rightarrow> thrown + 'a) \<Rightarrow> api_call \<Rightarrow> 'a io" where
  "call respond c s =
     (case respond s c of
        Inl e \<Rightarrow> (s @ [Call c False], Inl e)
      | Inr v \<Rightarrow> (s @ [Call c True], Inr v))"

definition bindE :: "thrown + 'a \<Rightarrow> ('a \<Rightarrow> thrown + 'b) \<Rightarrow> thrown + 'b" where
  "bindE m f = (case m of Inl e \<Rightarrow> Inl e | Inr x \<Rightarrow> f x)"

definition bindIO :: "'a io \<Rightarrow> ('a \<Rightarrow> 'b io) \<Rightarrow> 'b io" where
  "bindIO m f s = (case m s of (s1, Inl e) \<Rightarrow> (s1, Inl e) | (s1, Inr x) \<Rightarrow> f x s1)"

section \<open>Configuration (main.mts, \<open>init\<close>)\<close>

datatype Source = Literal | File | Env

definition getTitle :: "world \<Rightarrow> thrown + string option" where
  "getTitle w =
     bindE (getEnumInput (processEnv w) ''title-source''
              [(''literal'', Literal), (''file'', File), (''env'', Env)])
       (\<lambda>source. case source of
          Literal \<Rightarrow> Inr (getInput (processEnv w) ''title'')
        | File \<Rightarrow>
            bindE (getInputRequired (processEnv w) ''title'')
              (\<lambda>path. case readFile w path of
                 Inr content \<Rightarrow> Inr (Some content)
               | Inl err \<Rightarrow>
                   Inl (ActionError
                     (''failed to read title from file '' @ [CHR 0x22] @ path @ [CHR 0x22])
                     (Some err)))
        | Env \<Rightarrow>
            bindE (getInputRequired (processEnv w) ''title'')
              (\<lambda>varName. Inr (processEnv w varName)))"

definition getBody :: "world \<Rightarrow> thrown + string option" where
  "getBody w =
     bindE (getEnumInput (processEnv w) ''body-source''
              [(''literal'', Literal), (''file'', File), (''env'', Env)])
       (\<lambda>source. case source of
          Literal \<Rightarrow> Inr (getInput (processEnv w) ''body'')
        | File \<Rightarrow>
            bindE (getInputRequired (processEnv w) ''body'')
              (\<lambda>path. case readFile w path of
                 Inr content \<Rightarrow> Inr (Some content)
               | Inl err \<Rightarrow>
                   Inl (ActionError
                     (''failed to read title from file '' @ [CHR 0x22] @ path @ [CHR 0x22])
                     (Some err)))
        | Env \<Rightarrow>
            bindE (getInputRequired (processEnv w) ''body'')
              (\<lambda>varName. Inr (processEnv w varName)))"

record ConfigBase =
  owner :: string
  repo :: string
  tag :: string
  tagMessage :: string
  title :: string
  body :: string
  prerelease :: bool
  draft :: bool
  discussionCategoryName :: "string option"
  files :: "string list"

text \<open>
  The type \<open>Config\<close> is a union of \<open>ConfigBase\<close> with a strategy, with and without a
  \<open>targetSha\<close>: the field is optional.
\<close>

record Config = ConfigBase +
  strategy :: Strategy
  targetSha :: "string option"

text \<open>
  The first part of \<open>init\<close>, up to the read of \<open>target\<close>: the inputs are read and
  checked in the order of the source, and the first failure is thrown. The result is
  the object \<open>config\<close> of the source, the strategy and the target input.
\<close>

definition readInputs :: "world \<Rightarrow> thrown + ConfigBase \<times> Strategy \<times> string option" where
  "readInputs w =
     bindE (getInputRequired (processEnv w) ''token'') (\<lambda>token.
     bindE (getRepo (processEnv w)) (\<lambda>(owner', repo').
     bindE (getInputRequired (processEnv w) ''tag'') (\<lambda>tag'.
     let tagMessage' =
           (case getInput (processEnv w) ''tag-message'' of
              None \<Rightarrow> tag'
            | Some m \<Rightarrow> if m = [] then tag' else m) in
     bindE (getEnumInput (processEnv w) ''strategy''
              (map (\<lambda>x. (strategyValue x, x)) [Replace, FailFast, UseExistingTag])) (\<lambda>strategy'.
     bindE (getTitle w) (\<lambda>title0.
     bindE (getBody w) (\<lambda>body0.
     bindE (getBooleanInput (processEnv w) ''prerelease'') (\<lambda>prerelease0.
     bindE (getBooleanInput (processEnv w) ''draft'') (\<lambda>draft0.
     let files' = (case getMultilineInput (processEnv w) ''files'' of None \<Rightarrow> [] | Some fs \<Rightarrow> fs);
         discussionCategoryName' = getInput (processEnv w) ''discussion-category-name'';
         target = getInput (processEnv w) ''target''
     in Inr (\<lparr> owner = owner', repo = repo', tag = tag', tagMessage = tagMessage',
               title = (case title0 of None \<Rightarrow> [] | Some t \<Rightarrow> t),
               body = (case body0 of None \<Rightarrow> [] | Some b \<Rightarrow> b),
               prerelease = (case prerelease0 of None \<Rightarrow> False | Some p \<Rightarrow> p),
               draft = (case draft0 of None \<Rightarrow> False | Some d \<Rightarrow> d),
               discussionCategoryName = discussionCategoryName',
               files = files' \<rparr>,
             strategy', target)))))))))"

text \<open>\<open>target.replace(/^refs\//, "")\<close>: one leading \<open>refs/\<close> is removed.\<close>

definition stripRefs :: "string \<Rightarrow> string" where
  "stripRefs target = (if take 5 target = ''refs/'' then drop 5 target else target)"

text \<open>
  The resolution of the target input to \<open>targetSha\<close>: a target with a slash is looked
  up as a ref, any other is taken as the sha, and an absent target leaves \<open>targetSha\<close>
  undefined.
\<close>

definition resolveTarget :: "world \<Rightarrow> string \<Rightarrow> string \<Rightarrow> string option \<Rightarrow> string option io" where
  "resolveTarget w owner' repo' target s =
     (case target of
        None \<Rightarrow> (s, Inr None)
      | Some t \<Rightarrow>
          if CHR ''/'' \<in> set t then
            (case call (refResponse w) (GetRef owner' repo' (stripRefs t)) s of
               (s1, Inr sha) \<Rightarrow> (s1, Inr (Some sha))
             | (s1, Inl err) \<Rightarrow> (s1, Inl (ActionError ''failed to resolve target ref'' (Some err))))
          else (s, Inr (Some t)))"

definition makeConfig :: "ConfigBase \<Rightarrow> Strategy \<Rightarrow> string option \<Rightarrow> Config" where
  "makeConfig config strategy' targetSha' =
     \<lparr> owner = owner config, repo = repo config, tag = tag config,
       tagMessage = tagMessage config, title = title config, body = body config,
       prerelease = prerelease config, draft = draft config,
       discussionCategoryName = discussionCategoryName config, files = files config,
       strategy = strategy', targetSha = targetSha' \<rparr>"

definition init :: "world \<Rightarrow> Config io" where
  "init w s =
     (case readInputs w of
        Inl e \<Rightarrow> (s, Inl e)
      | Inr (config, strategy', target) \<Rightarrow>
          (case resolveTarget w (owner config) (repo config) target s of
             (s1, Inl e) \<Rightarrow> (s1, Inl e)
           | (s1, Inr None) \<Rightarrow>
               if strategy' \<noteq> UseExistingTag then (s1, Inl (InputParameterRequiredError ''target''))
               else (s1, Inr (makeConfig config strategy' None))
           | (s1, Inr (Some sha)) \<Rightarrow>
               if strategy' = UseExistingTag then
                 (s1, Inl (InputParameterIncompatibleStrategyError ''target'' strategy'))
               else (s1, Inr (makeConfig config strategy' (Some sha)))))"

section \<open>Retry with backoff (main.mts, \<open>runWithRetry\<close>)\<close>

text \<open>
  \<open>Math.round\<close> rounds to the nearest integer, a half upwards. The delay is computed
  on exact reals; \<open>attempts\<close> is a count and \<open>maxDelay\<close> a number of milliseconds,
  both taken as integers.
\<close>

definition mathRound :: "real \<Rightarrow> int" where
  "mathRound x = \<lfloor>x + 1 / 2\<rfloor>"

definition backoffDelay :: "world \<Rightarrow> int \<Rightarrow> nat \<Rightarrow> event list \<Rightarrow> int" where
  "backoffDelay w maxDelay i s = min (mathRound ((2 ^ i + mathRandom w s) * 1000)) maxDelay"

text \<open>
  The loop of \<open>runWithRetry\<close>, from the iteration \<open>i\<close> on. The result is the trace and
  what the function returns (\<open>[true, undefined]\<close> is \<open>(True, None)\<close>, \<open>[false, err]\<close> is
  \<open>(False, Some err)\<close>) or throws (\<open>unreachable()\<close> after the loop). The last component
  is not part of the program: it records the outcome of each invocation of \<open>f\<close>, in
  order, \<open>None\<close> for a return and \<open>Some err\<close> for a throw of \<open>err\<close>.
\<close>

function runWithRetryLoop ::
  "world \<Rightarrow> int \<Rightarrow> int \<Rightarrow> unit io \<Rightarrow> nat \<Rightarrow> thrown option list \<Rightarrow> event list \<Rightarrow>
   (event list \<times> (thrown + bool \<times> thrown option)) \<times> thrown option list" where
  "runWithRetryLoop w attempts maxDelay f i outcomes s =
     (if int i < attempts then
        (case f s of
           (s1, Inr u) \<Rightarrow> ((s1, Inr (True, None)), outcomes @ [None])
         | (s1, Inl err) \<Rightarrow>
             if int i = attempts - 1 then ((s1, Inr (False, Some err)), outcomes @ [Some err])
             else runWithRetryLoop w attempts maxDelay f (Suc i) (outcomes @ [Some err])
                    (s1 @ [Sleep (backoffDelay w maxDelay i s1)]))
      else ((s, Inl Unreachable), outcomes))"
  by pat_completeness auto
termination
  by (relation "measure (\<lambda>(w, attempts, maxDelay, f, i, outcomes, s). nat (attempts - int i))") auto

declare runWithRetryLoop.simps [simp del]

definition runWithRetry :: "world \<Rightarrow> int \<Rightarrow> int \<Rightarrow> unit io \<Rightarrow> (bool \<times> thrown option) io" where
  "runWithRetry w attempts maxDelay f s = fst (runWithRetryLoop w attempts maxDelay f 0 [] s)"

section \<open>The run (main.mts, \<open>run\<close>)\<close>

text \<open>
  The tag-existence query (lines 218 to 237): \<open>existingTag\<close> is the sha of the ref when
  the fetch returns, and undefined when it throws an HTTP error of status 404.
\<close>

definition existingTagQuery :: "world \<Rightarrow> Config \<Rightarrow> string option io" where
  "existingTagQuery w config s =
     (case call (refResponse w) (GetRef (owner config) (repo config) (''tags/'' @ tag config)) s of
        (s1, Inr sha) \<Rightarrow> (s1, Inr (Some sha))
      | (s1, Inl err) \<Rightarrow>
          if isHttpError err then
            (if errStatus err \<noteq> StatusNumber 404 then
               (s1, Inl (ActionError ''failed to verify if tag already exists'' (Some err)))
             else (s1, Inr None))
          else
            (s1, Inl (ActionError ''failed to verify if tag already exists (unknown error)''
                        (Some err))))"

text \<open>The loop over the listed releases (lines 250 to 261).\<close>

fun deleteReleases :: "world \<Rightarrow> Config \<Rightarrow> release list \<Rightarrow> unit io" where
  "deleteReleases w config [] s = (s, Inr ())"
| "deleteReleases w config (r # rs) s =
     (if tag_name r \<noteq> tag config then deleteReleases w config rs s
      else
        (case call (unitResponse w) (DeleteRelease (owner config) (repo config) (release_id r)) s of
           (s1, Inl e) \<Rightarrow> (s1, Inl e)
         | (s1, Inr u) \<Rightarrow> deleteReleases w config rs s1))"

text \<open>
  The strategy decision (lines 263 to 334). It returns the undo action \<open>undoTag\<close>, an
  operation like any other.
\<close>

definition applyStrategy :: "world \<Rightarrow> Config \<Rightarrow> string option \<Rightarrow> (unit io) io" where
  "applyStrategy w config existingTagSha s =
     (if strategy config = UseExistingTag then (s, Inr (\<lambda>s'. (s', Inr ())))
      else
        (case existingTagSha of
           Some sha0 \<Rightarrow>
             (case call (unitResponse w)
                     (UpdateRef (owner config) (repo config) (''tags/'' @ tag config)
                        (targetSha config) True) s of
                (s1, Inr u) \<Rightarrow>
                  (s1, Inr (call (unitResponse w)
                              (UpdateRef (owner config) (repo config) (''tags/'' @ tag config)
                                 (Some sha0) False)))
              | (s1, Inl err) \<Rightarrow>
                  (s1, Inl (ActionError ''failed to update existing tag'' (Some err))))
         | None \<Rightarrow>
             (case call (unitResponse w)
                     (CreateTag (owner config) (repo config) (tag config) (tagMessage config)
                        (targetSha config) ''commit'') s of
                (s1, Inl err) \<Rightarrow> (s1, Inl (ActionError ''failed to create tag'' (Some err)))
              | (s1, Inr u) \<Rightarrow>
                  (case call (unitResponse w)
                          (CreateRef (owner config) (repo config) (''refs/tags/'' @ tag config)
                             (targetSha config)) s1 of
                     (s2, Inl err) \<Rightarrow> (s2, Inl (ActionError ''failed to create tag'' (Some err)))
                   | (s2, Inr u') \<Rightarrow>
                       (s2, Inr (call (unitResponse w)
                                   (DeleteRef (owner config) (repo config)
                                      (''refs/tags/'' @ tag config))))))))"

text \<open>
  The creation of the release (lines 336 to 358): when it throws, \<open>undoTag\<close> is awaited,
  a throw of \<open>undoTag\<close> is logged, and the failure of the creation is thrown.
\<close>

definition createRelease :: "world \<Rightarrow> Config \<Rightarrow> unit io \<Rightarrow> (nat \<times> string) io" where
  "createRelease w config undoTag s =
     (case call (releaseResponse w)
             (CreateRelease (owner config) (repo config) (title config) (body config)
                (tag config) (discussionCategoryName config) (prerelease config) (draft config)) s of
        (s1, Inr rel) \<Rightarrow> (s1, Inr rel)
      | (s1, Inl err) \<Rightarrow>
          (case undoTag s1 of
             (s2, Inr u) \<Rightarrow> (s2, Inl (ActionError ''failed to create release'' (Some err)))
           | (s2, Inl err2) \<Rightarrow>
               (s2 @ [LogError ''failed to undo tag changes'' err2],
                Inl (ActionError ''failed to create release'' (Some err)))))"

text \<open>\<open>basename\<close> of \<open>node:path\<close> (POSIX): the last segment, trailing slashes dropped.\<close>

definition basename :: "string \<Rightarrow> string" where
  "basename p =
     rev (takeWhile (\<lambda>c. c \<noteq> CHR ''/'') (dropWhile (\<lambda>c. c = CHR ''/'') (rev p)))"

text \<open>One upload attempt (lines 369 to 399), the function given to \<open>runWithRetry\<close>.\<close>

fun deleteAssets :: "world \<Rightarrow> Config \<Rightarrow> string \<Rightarrow> asset list \<Rightarrow> unit io" where
  "deleteAssets w config name [] s = (s, Inr ())"
| "deleteAssets w config name (a # as) s =
     (if asset_name a = name then
        (case call (unitResponse w) (DeleteReleaseAsset (owner config) (repo config) (asset_id a)) s of
           (s1, Inl e) \<Rightarrow> (s1, Inl e)
         | (s1, Inr u) \<Rightarrow> deleteAssets w config name as s1)
      else deleteAssets w config name as s)"

definition uploadAttempt ::
  "world \<Rightarrow> Config \<Rightarrow> nat \<Rightarrow> string \<Rightarrow> string \<Rightarrow> string \<Rightarrow> nat \<Rightarrow> unit io" where
  "uploadAttempt w config releaseId releaseUploadUrl file name size' =
     bindIO (call (assetsResponse w) (ListReleaseAssets (owner config) (repo config) releaseId))
       (\<lambda>assets. bindIO (deleteAssets w config name assets)
          (\<lambda>u. call (unitResponse w)
                  (UploadReleaseAsset file size' ''application/octet-stream'' name
                     releaseUploadUrl)))"

text \<open>
  The loop over the files (lines 363 to 423). When the retries of a file are used up,
  the release is deleted and \<open>undoTag\<close> awaited, each in its own \<open>try\<close> whose \<open>catch\<close>
  logs, and the failure is thrown.
\<close>

fun uploadFiles ::
  "world \<Rightarrow> Config \<Rightarrow> nat \<Rightarrow> string \<Rightarrow> unit io \<Rightarrow> string list \<Rightarrow> unit io" where
  "uploadFiles w config releaseId releaseUploadUrl undoTag [] s = (s, Inr ())"
| "uploadFiles w config releaseId releaseUploadUrl undoTag (file # rest) s =
     (case statSize w file of
        Inl e \<Rightarrow> (s, Inl e)
      | Inr size' \<Rightarrow>
          (case runWithRetry w 4 4000
                  (uploadAttempt w config releaseId releaseUploadUrl file (basename file) size') s of
             (s1, Inl e) \<Rightarrow> (s1, Inl e)
           | (s1, Inr (success, err)) \<Rightarrow>
               if \<not> success then
                 (case call (unitResponse w)
                         (DeleteRelease (owner config) (repo config) releaseId) s1 of
                    (s2, d) \<Rightarrow>
                      (case undoTag
                              (case d of
                                 Inr u \<Rightarrow> s2
                               | Inl e \<Rightarrow> s2 @ [LogError ''failed to delete release'' e]) of
                         (s3, r) \<Rightarrow>
                           ((case r of
                               Inr u \<Rightarrow> s3
                             | Inl e \<Rightarrow> s3 @ [LogError ''failed to undo tag changes'' e]),
                            Inl (ActionError (''failed to upload file: '' @ file) err))))
               else uploadFiles w config releaseId releaseUploadUrl undoTag rest s1))"

text \<open>
  The end of the run (lines 360 to 425): the files are globbed and uploaded in order,
  and the id of the release is set as the output \<open>release-id\<close>.
\<close>

definition publishAssets :: "world \<Rightarrow> Config \<Rightarrow> unit io \<Rightarrow> nat \<times> string \<Rightarrow> unit io" where
  "publishAssets w config undoTag rel s =
     (case rel of
        (releaseId, releaseUploadUrl) \<Rightarrow>
          (case globFiles w (files config) of
             Inl e \<Rightarrow> (s, Inl e)
           | Inr paths \<Rightarrow>
               bindIO (uploadFiles w config releaseId releaseUploadUrl undoTag paths)
                 (\<lambda>u s'. (s' @ [SetOutput ''release-id'' releaseId], Inr ())) s))"

text \<open>
  The run from the listing of the releases on (lines 243 to 425), given what the
  tag-existence query found.
\<close>

definition releaseWithTag :: "world \<Rightarrow> Config \<Rightarrow> string option \<Rightarrow> unit io" where
  "releaseWithTag w config existingTag =
     bindIO (call (releasesResponse w) (ListReleases (owner config) (repo config)))
       (\<lambda>releases.
     bindIO (deleteReleases w config releases) (\<lambda>u.
     bindIO (applyStrategy w config existingTag) (\<lambda>undoTag.
     bindIO (createRelease w config undoTag) (publishAssets w config undoTag))))"

text \<open>
  The run after \<open>init\<close>, with the configuration it returned (lines 218 to 425), and
  the whole run from the empty trace.
\<close>

definition runWithConfig :: "world \<Rightarrow> Config \<Rightarrow> unit io" where
  "runWithConfig w config =
     bindIO (existingTagQuery w config) (\<lambda>existingTag s.
       if existingTag \<noteq> None \<and> strategy config = FailFast then
         (s, Inl (ActionError ''tag already exists'' None))
       else releaseWithTag w config existingTag s)"

definition run :: "world \<Rightarrow> event list \<times> (thrown + unit)" where
  "run w = bindIO (init w) (runWithConfig w) []"

section \<open>Properties of traces\<close>

text \<open>An operation appends to the trace: it never removes or rewrites what was done.\<close>

definition appends :: "'a io \<Rightarrow> bool" where
  "appends m = (\<forall>s. prefix s (fst (m s)))"

text \<open>
  The calls that change the repository: every call of the REST client but the three
  reads (get-ref, list-releases, list-release-assets).
\<close>

fun isMutation :: "event \<Rightarrow> bool" where
  "isMutation (Call (GetRef a b c) ok) = False"
| "isMutation (Call (ListReleases a b) ok) = False"
| "isMutation (Call (ListReleaseAssets a b c) ok) = False"
| "isMutation (Call c ok) = True"
| "isMutation e = False"

text \<open>
  The listed releases whose \<open>tag_name\<close> is the configured tag, and the call that deletes
  one of them, with whether it returned.
\<close>

definition staleReleases :: "Config \<Rightarrow> release list \<Rightarrow> release list" where
  "staleReleases config releases = filter (\<lambda>r. tag_name r = tag config) releases"

definition deletion :: "Config \<Rightarrow> bool \<Rightarrow> release \<Rightarrow> event" where
  "deletion config ok r = Call (DeleteRelease (owner config) (repo config) (release_id r)) ok"

fun isDeleteRelease :: "event \<Rightarrow> bool" where
  "isDeleteRelease (Call (DeleteRelease a b i) ok) = True"
| "isDeleteRelease e = False"

fun isCreateRelease :: "event \<Rightarrow> bool" where
  "isCreateRelease (Call (CreateRelease a b n d t c p f) ok) = True"
| "isCreateRelease e = False"

text \<open>No release is deleted before the first call that creates a release.\<close>

fun noDeleteBeforeCreate :: "event list \<Rightarrow> bool" where
  "noDeleteBeforeCreate [] = True"
| "noDeleteBeforeCreate (e # es) =
     (if isCreateRelease e then True
      else if isDeleteRelease e then False
      else noDeleteBeforeCreate es)"

section \<open>Concrete inputs\<close>

text \<open>The environments and worlds at which the theorems below are evaluated.\<close>

definition lineBreakEnv :: environment where
  "lineBreakEnv = [''INPUT_REPOSITORY'' \<mapsto> ''a'' @ [LF] @ ''b/c'']"

definition nestedOwnerEnv :: environment where
  "nestedOwnerEnv = [''INPUT_REPOSITORY'' \<mapsto> '' a/b/c '']"

definition notFound :: thrown where
  "notFound = JsError ''HttpError'' ''Not Found'' (StatusNumber 404)"

definition serverError :: thrown where
  "serverError = JsError ''HttpError'' ''Internal Server Error'' (StatusNumber 500)"

definition timedOut :: thrown where
  "timedOut = JsError ''TypeError'' ''fetch failed'' NoStatus"

definition absentTagWorld :: world where
  "absentTagWorld =
     \<lparr> processEnv =
         [''INPUT_TOKEN'' \<mapsto> ''t'', ''INPUT_REPOSITORY'' \<mapsto> ''o/r'', ''INPUT_TAG'' \<mapsto> ''v1'',
          ''INPUT_STRATEGY'' \<mapsto> ''use-existing-tag'', ''INPUT_TITLE-SOURCE'' \<mapsto> ''literal'',
          ''INPUT_BODY-SOURCE'' \<mapsto> ''literal''],
       readFile = (\<lambda>p. Inl (JsError ''Error'' ''ENOENT'' NoStatus)),
       globFiles = (\<lambda>ps. Inr []),
       statSize = (\<lambda>p. Inr 7),
       mathRandom = (\<lambda>s. 0),
       refResponse = (\<lambda>s c. Inl notFound),
       releasesResponse = (\<lambda>s c. Inr []),
       releaseResponse = (\<lambda>s c. Inr (1, ''u'')),
       assetsResponse = (\<lambda>s c. Inr []),
       unitResponse = (\<lambda>s c. Inr ()) \<rparr>"

definition absentTagConfig :: Config where
  "absentTagConfig =
     \<lparr> owner = ''o'', repo = ''r'', tag = ''v1'', tagMessage = ''v1'', title = [], body = [],
       prerelease = False, draft = False, discussionCategoryName = None, files = [],
       strategy = UseExistingTag, targetSha = None \<rparr>"

definition failFastWorld :: world where
  "failFastWorld =
     absentTagWorld
       \<lparr> processEnv := (processEnv absentTagWorld)
            (''INPUT_STRATEGY'' \<mapsto> ''fail-fast'', ''INPUT_TARGET'' \<mapsto> ''abc123''),
         refResponse := (\<lambda>s c. Inr ''def456'') \<rparr>"

definition failFastConfig :: Config where
  "failFastConfig = absentTagConfig \<lparr> strategy := FailFast, targetSha := Some ''abc123'' \<rparr>"

definition serverErrorWorld :: world where
  "serverErrorWorld = absentTagWorld \<lparr> refResponse := (\<lambda>s c. Inl serverError) \<rparr>"

definition networkErrorWorld :: world where
  "networkErrorWorld = absentTagWorld \<lparr> refResponse := (\<lambda>s c. Inl timedOut) \<rparr>"

definition baseConfig :: ConfigBase where
  "baseConfig =
     \<lparr> owner = ''o'', repo = ''r'', tag = ''v1'', tagMessage = ''v1'', title = [], body = [],
       prerelease = False, draft = False, discussionCategoryName = None, files = [] \<rparr>"

definition unresolvedTargetWorld :: world where
  "unresolvedTargetWorld =
     absentTagWorld
       \<lparr> processEnv := (processEnv absentTagWorld)(''INPUT_TARGET'' \<mapsto> ''refs/heads/main'') \<rparr>"

definition missingTargetWorld :: world where
  "missingTargetWorld =
     absentTagWorld
       \<lparr> processEnv := (processEnv absentTagWorld)(''INPUT_STRATEGY'' \<mapsto> ''replace'') \<rparr>"

definition incompatibleTargetWorld :: world where
  "incompatibleTargetWorld =
     absentTagWorld
       \<lparr> processEnv := (processEnv absentTagWorld)(''INPUT_TARGET'' \<mapsto> ''abc123'') \<rparr>"

definition refTargetWorld :: world where
  "refTargetWorld =
     failFastWorld
       \<lparr> processEnv := (processEnv failFastWorld)(''INPUT_TARGET'' \<mapsto> '' refs/heads/main '') \<rparr>"

definition failingUploadWorld :: world where
  "failingUploadWorld =
     absentTagWorld \<lparr> mathRandom := (\<lambda>s. 1 / 2), unitResponse := (\<lambda>s c. Inl serverError) \<rparr>"

definition alwaysFails :: "unit io" where
  "alwaysFails s = (s @ [LogError ''attempt'' timedOut], Inl timedOut)"

definition replaceConfig :: Config where
  "replaceConfig = absentTagConfig \<lparr> strategy := Replace, targetSha := Some ''abc123'' \<rparr>"

definition rollbackWorld :: world where
  "rollbackWorld =
     absentTagWorld
       \<lparr> globFiles := (\<lambda>ps. Inr [''dist/a.zip'', ''b.zip'']),
         mathRandom := (\<lambda>s. 1 / 2),
         unitResponse :=
           (\<lambda>s c. case c of
              UploadReleaseAsset data len type name url \<Rightarrow> Inl serverError
            | DeleteRef a b r \<Rightarrow> Inl serverError
            | _ \<Rightarrow> Inr ()) \<rparr>"

definition staleReleasesWorld :: world where
  "staleReleasesWorld =
     absentTagWorld
       \<lparr> releasesResponse := (\<lambda>s c. Inr [Release 5 ''v1'', Release 6 ''v0'', Release 7 ''v1'']) \<rparr>"

section \<open>Auxiliary lemmas\<close>

lemmas string_defs = trim_def isWhiteSpace_def isLineTerminator_def LF_def CR_def
  toUpperCase_def toUpperChar_def toLowerCase_def toLowerChar_def

lemmas input_defs = getRawInput_def hasValue_def getInputRequired_def getInput_def
  getEnumInput_def getBooleanInput_def getMultilineInput_def bindE_def

lemma trySplit_found:
  "splitsAt full j \<Longrightarrow> j \<le> k \<Longrightarrow> (\<forall>i. j < i \<and> i \<le> k \<longrightarrow> \<not> splitsAt full i) \<Longrightarrow>
   trySplit full k = Some (take j full, drop (Suc j) full)"
proof (induction k)
  case 0
  then show ?case by simp
next
  case (Suc k)
  show ?case
  proof (cases "j = Suc k")
    case True
    with Suc.prems show ?thesis by simp
  next
    case False
    with Suc.prems have "j \<le> k" by simp
    moreover from Suc.prems False have "\<not> splitsAt full (Suc k)" by simp
    ultimately show ?thesis using Suc by simp
  qed
qed

lemma trySplit_none:
  "(\<forall>i\<le>k. \<not> splitsAt full i) \<Longrightarrow> trySplit full k = None"
  by (induction k) simp_all

lemma slash_not_terminator: "\<not> isLineTerminator (CHR ''/'')"
  by (simp add: isLineTerminator_def LF_def CR_def)

lemma length_takeWhile_lt:
  "\<not> list_all P xs \<Longrightarrow> length (takeWhile P xs) < length xs"
  by (induction xs) auto

lemma matchRepo_split:
  assumes "full = a @ CHR ''/'' # b" and "CHR ''/'' \<notin> set b"
    and "list_all (\<lambda>c. \<not> isLineTerminator c) full"
  shows "matchRepo full = Some (a, b)"
proof -
  have tw: "takeWhile (\<lambda>c. \<not> isLineTerminator c) full = full"
    using assms(3) by (simp add: list_all_iff)
  have at: "splitsAt full (length a)"
    using assms(1,3) by (simp add: splitsAt_def)
  have later: "\<forall>i. length a < i \<and> i \<le> length full \<longrightarrow> \<not> splitsAt full i"
  proof (intro allI impI)
    fix i assume i: "length a < i \<and> i \<le> length full"
    show "\<not> splitsAt full i"
    proof
      assume "splitsAt full i"
      then have "i < length full" and "full ! i = CHR ''/''" by (simp_all add: splitsAt_def)
      moreover have "full ! i = b ! (i - Suc (length a))"
        using i assms(1) by (simp add: nth_append nth_Cons')
      moreover have "i - Suc (length a) < length b"
        using i \<open>i < length full\<close> assms(1) by simp
      ultimately show False using assms(2) by (metis nth_mem)
    qed
  qed
  have "trySplit full (length full) = Some (take (length a) full, drop (Suc (length a)) full)"
    using at later assms(1) by (intro trySplit_found) simp_all
  moreover have "take (length a) full = a" and "drop (Suc (length a)) full = b"
    using assms(1) by simp_all
  ultimately show ?thesis unfolding matchRepo_def tw by simp
qed

lemma matchRepo_none:
  assumes "CHR ''/'' \<notin> set full \<or> \<not> list_all (\<lambda>c. \<not> isLineTerminator c) full"
  shows "matchRepo full = None"
proof -
  let ?k = "length (takeWhile (\<lambda>c. \<not> isLineTerminator c) full)"
  have "\<forall>i\<le>?k. \<not> splitsAt full i"
  proof (intro allI impI)
    fix i assume i: "i \<le> ?k"
    show "\<not> splitsAt full i"
    proof (cases "CHR ''/'' \<notin> set full")
      case True
      then show ?thesis unfolding splitsAt_def by (metis nth_mem)
    next
      case False
      with assms have "\<not> list_all (\<lambda>c. \<not> isLineTerminator c) full" by simp
      then have lt: "?k < length full"
        by (rule length_takeWhile_lt)
      then have brk: "isLineTerminator (full ! ?k)"
        using nth_length_takeWhile by fastforce
      show ?thesis
      proof (cases "i = ?k")
        case True
        with brk slash_not_terminator show ?thesis by (auto simp: splitsAt_def)
      next
        case False
        with i have "i < ?k" by simp
        then have "Suc i + (?k - Suc i) = ?k" by simp
        then have "drop (Suc i) full ! (?k - Suc i) = full ! ?k"
          using lt by (simp only: nth_drop)
        moreover have "?k - Suc i < length (drop (Suc i) full)"
          using lt \<open>i < ?k\<close> by simp
        ultimately have "full ! ?k \<in> set (drop (Suc i) full)"
          by (metis nth_mem)
        with brk show ?thesis by (auto simp: splitsAt_def list_all_iff)
      qed
    qed
  qed
  then show ?thesis by (simp add: matchRepo_def trySplit_none)
qed

lemmas run_defs = readInputs_def getTitle_def getBody_def getRepo_def matchRepo_def splitsAt_def
  resolveTarget_def stripRefs_def makeConfig_def init_def call_def bindIO_def
  existingTagQuery_def applyStrategy_def createRelease_def publishAssets_def releaseWithTag_def
  runWithConfig_def run_def

lemma init_absentTag: "init absentTagWorld [] = ([], Inr absentTagConfig)"
  by (simp add: absentTagWorld_def absentTagConfig_def run_defs input_defs string_defs)

lemma init_failFast: "init failFastWorld [] = ([], Inr failFastConfig)"
  by (simp add: failFastWorld_def absentTagWorld_def failFastConfig_def absentTagConfig_def run_defs input_defs string_defs)

subsection \<open>Operations append to the trace\<close>

lemma prefix_call: "prefix s (fst (call respond c s))"
  by (simp add: call_def split: sum.splits)

lemma prefix_bindIO:
  assumes "prefix s (fst (m s))"
    and "\<And>s1 x. m s = (s1, Inr x) \<Longrightarrow> prefix s1 (fst (f x s1))"
  shows "prefix s (fst (bindIO m f s))"
proof (cases "m s")
  case (Pair s1 r)
  show ?thesis
  proof (cases r)
    case (Inl e)
    with Pair assms(1) show ?thesis by (simp add: bindIO_def)
  next
    case (Inr x)
    with Pair assms(2) have "prefix s1 (fst (f x s1))" by simp
    moreover from Pair assms(1) have "prefix s s1" by simp
    ultimately show ?thesis using Pair Inr by (auto simp: bindIO_def)
  qed
qed

lemma appendsD: "appends m \<Longrightarrow> m s = (s1, r) \<Longrightarrow> prefix s s1"
  by (metis appends_def fst_conv)

lemma appends_call: "appends (call respond c)"
  by (simp add: appends_def prefix_call)

lemma appends_bindIO: "appends m \<Longrightarrow> (\<And>x. appends (f x)) \<Longrightarrow> appends (bindIO m f)"
  unfolding appends_def by (auto intro: prefix_bindIO)

lemma prefix_deleteReleases: "prefix s (fst (deleteReleases w config rs s))"
proof (induction rs arbitrary: s)
  case Nil
  show ?case by simp
next
  case (Cons r rs)
  show ?case
  proof (cases "tag_name r \<noteq> tag config")
    case True
    with Cons show ?thesis by simp
  next
    case False
    let ?c = "DeleteRelease (owner config) (repo config) (release_id r)"
    show ?thesis
    proof (cases "unitResponse w s ?c")
      case (Inl e)
      with False show ?thesis by (simp add: call_def)
    next
      case (Inr u)
      have "prefix (s @ [Call ?c True]) (fst (deleteReleases w config rs (s @ [Call ?c True])))"
        by (rule Cons.IH)
      then have "prefix s (fst (deleteReleases w config rs (s @ [Call ?c True])))"
        using append_prefixD by blast
      with False Inr show ?thesis by (simp add: call_def)
    qed
  qed
qed

lemma prefix_deleteAssets: "prefix s (fst (deleteAssets w config name as s))"
proof (induction as arbitrary: s)
  case Nil
  show ?case by simp
next
  case (Cons a as)
  show ?case
  proof (cases "asset_name a = name")
    case False
    with Cons show ?thesis by simp
  next
    case True
    let ?c = "DeleteReleaseAsset (owner config) (repo config) (asset_id a)"
    show ?thesis
    proof (cases "unitResponse w s ?c")
      case (Inl e)
      with True show ?thesis by (simp add: call_def)
    next
      case (Inr u)
      have "prefix (s @ [Call ?c True]) (fst (deleteAssets w config name as (s @ [Call ?c True])))"
        by (rule Cons.IH)
      then have "prefix s (fst (deleteAssets w config name as (s @ [Call ?c True])))"
        using append_prefixD by blast
      with True Inr show ?thesis by (simp add: call_def)
    qed
  qed
qed

lemma appends_uploadAttempt: "appends (uploadAttempt w config rid url path name sz)"
  unfolding uploadAttempt_def
  by (intro appends_bindIO appends_call) (simp add: appends_def prefix_deleteAssets)

lemma loop_done:
  "\<not> int i < attempts \<Longrightarrow>
   runWithRetryLoop w attempts maxDelay f i outcomes s = ((s, Inl Unreachable), outcomes)"
  by (subst runWithRetryLoop.simps) simp

lemma loop_success:
  "int i < attempts \<Longrightarrow> f s = (s1, Inr u) \<Longrightarrow>
   runWithRetryLoop w attempts maxDelay f i outcomes s =
     ((s1, Inr (True, None)), outcomes @ [None])"
  by (subst runWithRetryLoop.simps) simp

lemma loop_last:
  "int i < attempts \<Longrightarrow> f s = (s1, Inl err) \<Longrightarrow> int i = attempts - 1 \<Longrightarrow>
   runWithRetryLoop w attempts maxDelay f i outcomes s =
     ((s1, Inr (False, Some err)), outcomes @ [Some err])"
  by (subst runWithRetryLoop.simps) simp

lemma loop_retry:
  "int i < attempts \<Longrightarrow> f s = (s1, Inl err) \<Longrightarrow> int i \<noteq> attempts - 1 \<Longrightarrow>
   runWithRetryLoop w attempts maxDelay f i outcomes s =
     runWithRetryLoop w attempts maxDelay f (Suc i) (outcomes @ [Some err])
       (s1 @ [Sleep (backoffDelay w maxDelay i s1)])"
  by (subst runWithRetryLoop.simps) simp

lemma prefix_runWithRetryLoop:
  "appends f \<Longrightarrow> prefix s (fst (fst (runWithRetryLoop w attempts maxDelay f i outcomes s)))"
proof (induction w attempts maxDelay f i outcomes s rule: runWithRetryLoop.induct)
  case (1 w attempts maxDelay f i outcomes s)
  show ?case
  proof (cases "int i < attempts")
    case False
    then show ?thesis by (simp add: loop_done)
  next
    case True
    obtain s1 r where fs: "f s = (s1, r)" by (cases "f s")
    have p1: "prefix s s1" using "1.prems" fs by (rule appendsD)
    show ?thesis
    proof (cases r)
      case (Inr u)
      with True fs p1 show ?thesis by (simp add: loop_success)
    next
      case (Inl err)
      show ?thesis
      proof (cases "int i = attempts - 1")
        case last: True
        from True fs Inl last p1 show ?thesis by (simp add: loop_last)
      next
        case False
        let ?s2 = "s1 @ [Sleep (backoffDelay w maxDelay i s1)]"
        have "prefix ?s2 (fst (fst (runWithRetryLoop w attempts maxDelay f (Suc i)
                 (outcomes @ [Some err]) ?s2)))"
          using "1.IH" [OF True fs [symmetric] _ False "1.prems"] Inl by simp
        then have "prefix s (fst (fst (runWithRetryLoop w attempts maxDelay f (Suc i)
                 (outcomes @ [Some err]) ?s2)))"
          using p1 by (meson append_prefixD prefix_order.trans)
        moreover have "runWithRetryLoop w attempts maxDelay f i outcomes s =
            runWithRetryLoop w attempts maxDelay f (Suc i) (outcomes @ [Some err]) ?s2"
          using True fs Inl False by (intro loop_retry) simp_all
        ultimately show ?thesis by simp
      qed
    qed
  qed
qed

lemma appends_runWithRetry: "appends f \<Longrightarrow> appends (runWithRetry w attempts maxDelay f)"
  by (simp add: appends_def runWithRetry_def prefix_runWithRetryLoop)

lemma prefix_logged:
  "prefix s (case r of Inr u \<Rightarrow> s | Inl e \<Rightarrow> s @ [LogError msg e])"
  by (cases r) simp_all

lemma prefix_uploadFiles:
  assumes undo: "appends undoTag"
  shows "prefix s (fst (uploadFiles w config rid url undoTag paths s))"
proof (induction paths arbitrary: s)
  case Nil
  show ?case by simp
next
  case (Cons path rest)
  show ?case
  proof (cases "statSize w path")
    case (Inl e)
    then show ?thesis by simp
  next
    case (Inr sz)
    let ?f = "uploadAttempt w config rid url path (basename path) sz"
    obtain s1 r where rr: "runWithRetry w 4 4000 ?f s = (s1, r)"
      by (cases "runWithRetry w 4 4000 ?f s")
    have "appends (runWithRetry w 4 4000 ?f)"
      by (rule appends_runWithRetry [OF appends_uploadAttempt])
    then have p1: "prefix s s1"
      using rr by (rule appendsD)
    show ?thesis
    proof (cases r)
      case (Inl e)
      with Inr rr p1 show ?thesis by simp
    next
      case res: (Inr pr)
      obtain success err where pr: "pr = (success, err)" by (cases pr)
      show ?thesis
      proof (cases success)
        case True
        have "prefix s1 (fst (uploadFiles w config rid url undoTag rest s1))" by (rule Cons.IH)
        with p1 have "prefix s (fst (uploadFiles w config rid url undoTag rest s1))"
          by (rule prefix_order.trans)
        with Inr rr res pr True show ?thesis by simp
      next
        case False
        let ?c = "DeleteRelease (owner config) (repo config) rid"
        obtain s2 d where del: "call (unitResponse w) ?c s1 = (s2, d)"
          by (cases "call (unitResponse w) ?c s1")
        let ?s2 = "case d of Inr u \<Rightarrow> s2 | Inl e \<Rightarrow> s2 @ [LogError ''failed to delete release'' e]"
        obtain s3 u where un: "undoTag ?s2 = (s3, u)" by (cases "undoTag ?s2")
        let ?s3 = "case u of Inr u \<Rightarrow> s3 | Inl e \<Rightarrow> s3 @ [LogError ''failed to undo tag changes'' e]"
        have "prefix s1 s2" using prefix_call [of s1 "unitResponse w" ?c] del by simp
        with p1 have "prefix s s2" by (rule prefix_order.trans)
        moreover have "prefix s2 ?s2" by (rule prefix_logged)
        ultimately have "prefix s ?s2" by (rule prefix_order.trans)
        moreover have "prefix ?s2 s3" using undo un by (rule appendsD)
        ultimately have "prefix s s3" by (rule prefix_order.trans)
        moreover have "prefix s3 ?s3" by (rule prefix_logged)
        ultimately have "prefix s ?s3" by (rule prefix_order.trans)
        with Inr rr res pr False del un show ?thesis by simp
      qed
    qed
  qed
qed

lemma prefix_publishAssets:
  assumes "appends undoTag"
  shows "prefix s (fst (publishAssets w config undoTag rel s))"
proof -
  obtain rid url where rel: "rel = (rid, url)" by (cases rel)
  show ?thesis
  proof (cases "globFiles w (files config)")
    case (Inl e)
    with rel show ?thesis by (simp add: publishAssets_def)
  next
    case (Inr paths)
    have "prefix s (fst (bindIO (uploadFiles w config rid url undoTag paths)
              (\<lambda>u s'. (s' @ [SetOutput ''release-id'' rid], Inr ())) s))"
      by (rule prefix_bindIO) (simp_all add: prefix_uploadFiles [OF assms])
    with rel Inr show ?thesis by (simp add: publishAssets_def)
  qed
qed

lemma applyStrategy_undo_appends:
  "applyStrategy w config existingTag s = (s1, Inr undoTag) \<Longrightarrow> appends undoTag"
  by (auto simp: applyStrategy_def appends_def prefix_call
           split: if_splits option.splits sum.splits prod.splits)

lemma prefix_applyStrategy: "prefix s (fst (applyStrategy w config existingTag s))"
  by (auto simp: applyStrategy_def call_def split: option.splits sum.splits)

lemma createRelease_first:
  assumes "appends undoTag"
  shows "\<exists>ok rest. fst (bindIO (createRelease w config undoTag) (publishAssets w config undoTag) s) =
           s @ Call (CreateRelease (owner config) (repo config) (title config) (body config)
                       (tag config) (discussionCategoryName config) (prerelease config)
                       (draft config)) ok # rest"
proof -
  let ?c = "CreateRelease (owner config) (repo config) (title config) (body config)
              (tag config) (discussionCategoryName config) (prerelease config) (draft config)"
  show ?thesis
  proof (cases "releaseResponse w s ?c")
    case (Inr rel)
    have "prefix (s @ [Call ?c True]) (fst (publishAssets w config undoTag rel (s @ [Call ?c True])))"
      by (rule prefix_publishAssets [OF assms])
    then obtain rest where
      "fst (publishAssets w config undoTag rel (s @ [Call ?c True])) = (s @ [Call ?c True]) @ rest"
      by (auto simp: prefix_def)
    with Inr show ?thesis
      by (intro exI [of _ True] exI [of _ rest]) (simp add: bindIO_def createRelease_def call_def)
  next
    case (Inl err)
    obtain s2 u where un: "undoTag (s @ [Call ?c False]) = (s2, u)"
      by (cases "undoTag (s @ [Call ?c False])")
    with assms have "prefix (s @ [Call ?c False]) s2" by (rule appendsD)
    then obtain rest where "s2 = (s @ [Call ?c False]) @ rest" by (auto simp: prefix_def)
    with Inl un show ?thesis
      by (intro exI [of _ False]) (cases u; simp add: bindIO_def createRelease_def call_def)
  qed
qed

lemma prefix_releaseTail:
  assumes "appends undoTag"
  shows "prefix s (fst (bindIO (createRelease w config undoTag) (publishAssets w config undoTag) s))"
  using createRelease_first [OF assms, of w config s] by (auto simp: prefix_def)

lemma prefix_afterCleanup:
  "prefix s (fst (bindIO (applyStrategy w config existingTag)
      (\<lambda>undoTag. bindIO (createRelease w config undoTag) (publishAssets w config undoTag)) s))"
  by (rule prefix_bindIO)
     (auto intro: prefix_applyStrategy prefix_releaseTail applyStrategy_undo_appends)

lemma prefix_afterListing:
  "prefix s (fst (bindIO (deleteReleases w config releases) (\<lambda>u.
      bindIO (applyStrategy w config existingTag)
        (\<lambda>undoTag. bindIO (createRelease w config undoTag) (publishAssets w config undoTag))) s))"
  by (rule prefix_bindIO) (auto intro: prefix_deleteReleases prefix_afterCleanup)

lemma releaseWithTag_first:
  "\<exists>ok rest. fst (releaseWithTag w config existingTag s) =
     s @ Call (ListReleases (owner config) (repo config)) ok # rest"
proof -
  let ?c = "ListReleases (owner config) (repo config)"
  show ?thesis
  proof (cases "releasesResponse w s ?c")
    case (Inl e)
    then show ?thesis
      by (intro exI [of _ False] exI [of _ "[]"]) (simp add: releaseWithTag_def bindIO_def call_def)
  next
    case (Inr releases)
    obtain rest where
      "fst (bindIO (deleteReleases w config releases) (\<lambda>u.
          bindIO (applyStrategy w config existingTag)
            (\<lambda>undoTag. bindIO (createRelease w config undoTag) (publishAssets w config undoTag)))
          (s @ [Call ?c True])) = (s @ [Call ?c True]) @ rest"
      using prefix_afterListing [of "s @ [Call ?c True]" w config releases existingTag]
      by (auto simp: prefix_def)
    then have "fst (releaseWithTag w config existingTag s) = s @ Call ?c True # rest"
      using Inr by (simp add: releaseWithTag_def call_def bindIO_def [of "call _ _"])
    then show ?thesis by blast
  qed
qed

lemma init_trace:
  "init w s = (s1, r) \<Longrightarrow> s1 = s \<or> (\<exists>a b c ok. s1 = s @ [Call (GetRef a b c) ok])"
  by (auto simp: init_def resolveTarget_def call_def
           split: sum.splits prod.splits option.splits if_splits)

lemmas world_defs = absentTagWorld_def failFastWorld_def serverErrorWorld_def
  networkErrorWorld_def unresolvedTargetWorld_def missingTargetWorld_def
  incompatibleTargetWorld_def refTargetWorld_def

lemmas config_defs = baseConfig_def absentTagConfig_def failFastConfig_def

lemmas read_defs = readInputs_def getTitle_def getBody_def getRepo_def matchRepo_def
  splitsAt_def input_defs string_defs

lemma readInputs_unresolvedTarget:
  "readInputs unresolvedTargetWorld = Inr (baseConfig, UseExistingTag, Some ''refs/heads/main'')"
  by (simp add: world_defs config_defs read_defs)

lemma readInputs_missingTarget:
  "readInputs missingTargetWorld = Inr (baseConfig, Replace, None)"
  by (simp add: world_defs config_defs read_defs)

lemma readInputs_incompatibleTarget:
  "readInputs incompatibleTargetWorld = Inr (baseConfig, UseExistingTag, Some ''abc123'')"
  by (simp add: world_defs config_defs read_defs)

lemma readInputs_refTarget:
  "readInputs refTargetWorld = Inr (baseConfig, FailFast, Some ''refs/heads/main'')"
  by (simp add: world_defs config_defs read_defs)

lemma readInputs_failFast:
  "readInputs failFastWorld = Inr (baseConfig, FailFast, Some ''abc123'')"
  by (simp add: world_defs config_defs read_defs)

lemma appends_noop: "appends (\<lambda>s'. (s', Inr ()))"
  by (simp add: appends_def)

lemma loop_outcomes:
  "int i < attempts \<Longrightarrow>
   runWithRetryLoop w attempts maxDelay f i acc s = ((s', r), outs) \<Longrightarrow>
   \<exists>new. outs = acc @ new \<and> new \<noteq> [] \<and> int (length new) \<le> attempts - int i \<and>
     None \<notin> set (butlast new) \<and>
     (case last new of
        None \<Rightarrow> r = Inr (True, None)
      | Some e \<Rightarrow> r = Inr (False, Some e) \<and> int (length new) = attempts - int i)"
proof (induction w attempts maxDelay f i acc s rule: runWithRetryLoop.induct)
  case (1 w attempts maxDelay f i acc s)
  obtain s1 x where fs: "f s = (s1, x)" by (cases "f s")
  show ?case
  proof (cases x)
    case (Inr u)
    with "1.prems" fs have "outs = acc @ [None]" and "r = Inr (True, None)"
      by (simp_all add: loop_success)
    with "1.prems"(1) show ?thesis by (intro exI [of _ "[None]"]) simp
  next
    case (Inl err)
    show ?thesis
    proof (cases "int i = attempts - 1")
      case True
      with "1.prems" fs Inl have "outs = acc @ [Some err]" and "r = Inr (False, Some err)"
        by (simp_all add: loop_last)
      with True show ?thesis by (intro exI [of _ "[Some err]"]) simp
    next
      case False
      let ?s2 = "s1 @ [Sleep (backoffDelay w maxDelay i s1)]"
      from "1.prems"(1) False have lt: "int (Suc i) < attempts" by simp
      have "runWithRetryLoop w attempts maxDelay f (Suc i) (acc @ [Some err]) ?s2 = ((s', r), outs)"
        using "1.prems" fs Inl False by (simp add: loop_retry)
      with "1.IH" [OF "1.prems"(1) fs [symmetric] _ False lt] Inl
      obtain new where n: "outs = (acc @ [Some err]) @ new" "new \<noteq> []"
        "int (length new) \<le> attempts - int (Suc i)" "None \<notin> set (butlast new)"
        "(case last new of
            None \<Rightarrow> r = Inr (True, None)
          | Some e \<Rightarrow> r = Inr (False, Some e) \<and> int (length new) = attempts - int (Suc i))"
        by auto
      show ?thesis
      proof (intro exI [of _ "Some err # new"] conjI)
        show "outs = acc @ Some err # new" using n(1) by simp
        show "Some err # new \<noteq> []" by simp
        show "int (length (Some err # new)) \<le> attempts - int i" using n(3) by simp
        show "None \<notin> set (butlast (Some err # new))" using n(2,4) by simp
        show "case last (Some err # new) of
            None \<Rightarrow> r = Inr (True, None)
          | Some e \<Rightarrow> r = Inr (False, Some e) \<and>
              int (length (Some err # new)) = attempts - int i"
          using n(2,5) by (auto split: option.splits)
      qed
    qed
  qed
qed

lemma loop_outcomes_start:
  assumes "1 \<le> attempts"
    and "runWithRetryLoop w attempts maxDelay f 0 [] s = ((s', r), outs)"
  shows "outs \<noteq> [] \<and> int (length outs) \<le> attempts \<and> None \<notin> set (butlast outs) \<and>
     (case last outs of
        None \<Rightarrow> r = Inr (True, None)
      | Some e \<Rightarrow> r = Inr (False, Some e) \<and> int (length outs) = attempts)"
proof -
  from assms(1) have "int 0 < attempts" by simp
  from loop_outcomes [OF this assms(2)] show ?thesis by (simp split: option.splits)
qed

lemma loop_alwaysFails:
  "runWithRetryLoop failingUploadWorld 2 4000 alwaysFails 0 [] [] =
     (([LogError ''attempt'' timedOut, Sleep 1500, LogError ''attempt'' timedOut],
       Inr (False, Some timedOut)),
      [Some timedOut, Some timedOut])"
  by (simp add: runWithRetryLoop.simps alwaysFails_def backoffDelay_def mathRound_def
        failingUploadWorld_def)

lemma backoffDelay_formula:
  assumes "0 \<le> mathRandom w h \<and> mathRandom w h < 1"
  shows "\<exists>r. 0 \<le> r \<and> r < 1 \<and>
           backoffDelay w maxDelay i h = min maxDelay (mathRound ((2 ^ i + r) * 1000))"
  using assms by (intro exI [of _ "mathRandom w h"]) (simp add: backoffDelay_def min.commute)

lemma mathRound_bounds:
  assumes "0 \<le> r" and "r < 1"
  shows "1000 * 2 ^ i \<le> mathRound ((2 ^ i + r) * 1000)"
    and "mathRound ((2 ^ i + r) * 1000) \<le> 1000 * 2 ^ i + 1000"
proof -
  have "of_int (1000 * 2 ^ i) \<le> (2 ^ i + r) * 1000 + 1 / 2"
    using assms(1) by (simp add: algebra_simps)
  then show "1000 * 2 ^ i \<le> mathRound ((2 ^ i + r) * 1000)"
    unfolding mathRound_def by (simp only: le_floor_iff)
  have "(2 ^ i + r) * 1000 + 1 / 2 < of_int (1000 * 2 ^ i + 1000 + 1)"
    using assms(2) by (simp add: algebra_simps)
  then have "mathRound ((2 ^ i + r) * 1000) < 1000 * 2 ^ i + 1000 + 1"
    unfolding mathRound_def by (simp only: floor_less_iff)
  then show "mathRound ((2 ^ i + r) * 1000) \<le> 1000 * 2 ^ i + 1000" by simp
qed

lemma backoffDelay_bounds:
  assumes "0 \<le> mathRandom w h \<and> mathRandom w h < 1"
  shows "1000 \<le> backoffDelay w 4000 0 h \<and> backoffDelay w 4000 0 h \<le> 2000 \<and>
         2000 \<le> backoffDelay w 4000 1 h \<and> backoffDelay w 4000 1 h \<le> 3000 \<and>
         backoffDelay w 4000 2 h = 4000"
proof -
  from assms have r: "0 \<le> mathRandom w h" "mathRandom w h < 1" by simp_all
  show ?thesis
    using mathRound_bounds [OF r, of 0] mathRound_bounds [OF r, of 1]
      mathRound_bounds [OF r, of 2]
    by (simp add: backoffDelay_def)
qed

lemma loop_unfold:
  "int i < attempts \<Longrightarrow>
   fst (runWithRetryLoop w attempts maxDelay f i acc s) =
     (case f s of
        (s1, Inr u) \<Rightarrow> (s1, Inr (True, None))
      | (s1, Inl err) \<Rightarrow>
          if int i = attempts - 1 then (s1, Inr (False, Some err))
          else fst (runWithRetryLoop w attempts maxDelay f (Suc i) (acc @ [Some err])
                      (s1 @ [Sleep (backoffDelay w maxDelay i s1)])))"
  by (subst runWithRetryLoop.simps) (simp split: prod.splits sum.splits)

lemma runWithRetry_four:
  "runWithRetry w 4 maxDelay f s =
     (case f s of
        (s1, Inr u) \<Rightarrow> (s1, Inr (True, None))
      | (s1, Inl e1) \<Rightarrow>
     (case f (s1 @ [Sleep (backoffDelay w maxDelay 0 s1)]) of
        (s2, Inr u) \<Rightarrow> (s2, Inr (True, None))
      | (s2, Inl e2) \<Rightarrow>
     (case f (s2 @ [Sleep (backoffDelay w maxDelay 1 s2)]) of
        (s3, Inr u) \<Rightarrow> (s3, Inr (True, None))
      | (s3, Inl e3) \<Rightarrow>
     (case f (s3 @ [Sleep (backoffDelay w maxDelay 2 s3)]) of
        (s4, Inr u) \<Rightarrow> (s4, Inr (True, None))
      | (s4, Inl e4) \<Rightarrow> (s4, Inr (False, Some e4))))))"
  by (simp add: runWithRetry_def loop_unfold numeral_2_eq_2 cong: prod.case_cong sum.case_cong)

lemma deleteReleases_trace:
  "(\<exists>u. deleteReleases w config rs s =
          (s @ map (deletion config True) (staleReleases config rs), Inr u)) \<or>
   (\<exists>k e. k < length (staleReleases config rs) \<and>
          deleteReleases w config rs s =
            (s @ map (deletion config True) (take k (staleReleases config rs)) @
               [deletion config False (staleReleases config rs ! k)],
             Inl e))"
proof (induction rs arbitrary: s)
  case Nil
  show ?case by (simp add: staleReleases_def)
next
  case (Cons r rs)
  show ?case
  proof (cases "tag_name r \<noteq> tag config")
    case True
    with Cons [of s] show ?thesis by (simp add: staleReleases_def)
  next
    case False
    then have st: "staleReleases config (r # rs) = r # staleReleases config rs"
      by (simp add: staleReleases_def)
    let ?c = "DeleteRelease (owner config) (repo config) (release_id r)"
    show ?thesis
    proof (cases "unitResponse w s ?c")
      case (Inl e)
      with False have "deleteReleases w config (r # rs) s =
          (s @ map (deletion config True) (take 0 (staleReleases config (r # rs))) @
             [deletion config False (staleReleases config (r # rs) ! 0)], Inl e)"
        by (simp add: call_def st deletion_def)
      moreover have "0 < length (staleReleases config (r # rs))" by (simp add: st)
      ultimately show ?thesis by blast
    next
      case (Inr u)
      let ?s1 = "s @ [deletion config True r]"
      have step: "deleteReleases w config (r # rs) s = deleteReleases w config rs ?s1"
        using False Inr by (simp add: call_def deletion_def)
      from Cons [of ?s1] show ?thesis
      proof
        assume "\<exists>u. deleteReleases w config rs ?s1 =
            (?s1 @ map (deletion config True) (staleReleases config rs), Inr u)"
        then show ?thesis using step by (simp add: st)
      next
        assume "\<exists>k e. k < length (staleReleases config rs) \<and>
            deleteReleases w config rs ?s1 =
              (?s1 @ map (deletion config True) (take k (staleReleases config rs)) @
                 [deletion config False (staleReleases config rs ! k)], Inl e)"
        then obtain k e where k: "k < length (staleReleases config rs)"
          and d: "deleteReleases w config rs ?s1 =
              (?s1 @ map (deletion config True) (take k (staleReleases config rs)) @
                 [deletion config False (staleReleases config rs ! k)], Inl e)"
          by blast
        have "Suc k < length (staleReleases config (r # rs))" using k by (simp add: st)
        moreover have "deleteReleases w config (r # rs) s =
            (s @ map (deletion config True) (take (Suc k) (staleReleases config (r # rs))) @
               [deletion config False (staleReleases config (r # rs) ! Suc k)], Inl e)"
          using step d by (simp add: st)
        ultimately show ?thesis by blast
      qed
    qed
  qed
qed

lemma noDeleteBeforeCreate_append:
  "\<forall>e \<in> set evs. \<not> isDeleteRelease e \<and> \<not> isCreateRelease e \<Longrightarrow>
   noDeleteBeforeCreate (evs @ rest) = noDeleteBeforeCreate rest"
  by (induction evs) simp_all

lemma applyStrategy_trace:
  "\<exists>evs. fst (applyStrategy w config existingTag s) = s @ evs \<and>
     (\<forall>e \<in> set evs. \<not> isDeleteRelease e \<and> \<not> isCreateRelease e)"
proof (cases "strategy config = UseExistingTag")
  case True
  then show ?thesis by (simp add: applyStrategy_def)
next
  case False
  show ?thesis
  proof (cases existingTag)
    case (Some sha0)
    with False show ?thesis
      by (cases "unitResponse w s (UpdateRef (owner config) (repo config) (''tags/'' @ tag config)
                   (targetSha config) True)")
         (simp_all add: applyStrategy_def call_def)
  next
    case None
    let ?c1 = "CreateTag (owner config) (repo config) (tag config) (tagMessage config)
                 (targetSha config) ''commit''"
    let ?c2 = "CreateRef (owner config) (repo config) (''refs/tags/'' @ tag config)
                 (targetSha config)"
    show ?thesis
    proof (cases "unitResponse w s ?c1")
      case (Inl e)
      with False None show ?thesis by (simp add: applyStrategy_def call_def)
    next
      case (Inr u)
      with False None show ?thesis
        by (cases "unitResponse w (s @ [Call ?c1 True]) ?c2")
           (simp_all add: applyStrategy_def call_def)
    qed
  qed
qed

lemma afterCleanup_trace:
  "\<exists>post. fst (bindIO (applyStrategy w config existingTag)
      (\<lambda>undoTag. bindIO (createRelease w config undoTag) (publishAssets w config undoTag)) s) =
      s @ post \<and> noDeleteBeforeCreate post"
proof -
  obtain evs where evs: "fst (applyStrategy w config existingTag s) = s @ evs"
    and quiet: "\<forall>e \<in> set evs. \<not> isDeleteRelease e \<and> \<not> isCreateRelease e"
    using applyStrategy_trace by blast
  obtain s1 r where a: "applyStrategy w config existingTag s = (s1, r)"
    by (cases "applyStrategy w config existingTag s")
  with evs have s1: "s1 = s @ evs" by simp
  show ?thesis
  proof (cases r)
    case (Inl e)
    with a s1 have "fst (bindIO (applyStrategy w config existingTag)
      (\<lambda>undoTag. bindIO (createRelease w config undoTag) (publishAssets w config undoTag)) s) =
      s @ evs"
      by (simp add: bindIO_def)
    moreover have "noDeleteBeforeCreate evs"
      using noDeleteBeforeCreate_append [OF quiet, of "[]"] by simp
    ultimately show ?thesis by blast
  next
    case (Inr undoTag)
    with a have "appends undoTag" by (auto intro: applyStrategy_undo_appends)
    from createRelease_first [OF this, of w config s1]
    obtain ok rest where
      "fst (bindIO (createRelease w config undoTag) (publishAssets w config undoTag) s1) =
         s1 @ Call (CreateRelease (owner config) (repo config) (title config) (body config)
                      (tag config) (discussionCategoryName config) (prerelease config)
                      (draft config)) ok # rest"
      by blast
    with a Inr s1 have "fst (bindIO (applyStrategy w config existingTag)
      (\<lambda>undoTag. bindIO (createRelease w config undoTag) (publishAssets w config undoTag)) s) =
      s @ evs @ Call (CreateRelease (owner config) (repo config) (title config) (body config)
                      (tag config) (discussionCategoryName config) (prerelease config)
                      (draft config)) ok # rest"
      by (simp add: bindIO_def [of "applyStrategy _ _ _"])
    moreover have "noDeleteBeforeCreate
        (evs @ Call (CreateRelease (owner config) (repo config) (title config) (body config)
                      (tag config) (discussionCategoryName config) (prerelease config)
                      (draft config)) ok # rest)"
      using noDeleteBeforeCreate_append [OF quiet] by simp
    ultimately show ?thesis by blast
  qed
qed

lemma run_staleReleases:
  "runWithConfig staleReleasesWorld absentTagConfig [] =
     ([Call (GetRef ''o'' ''r'' ''tags/v1'') False,
       Call (ListReleases ''o'' ''r'') True,
       Call (DeleteRelease ''o'' ''r'' 5) True,
       Call (DeleteRelease ''o'' ''r'' 7) True,
       Call (CreateRelease ''o'' ''r'' [] [] ''v1'' None False False) True,
       SetOutput ''release-id'' 1],
      Inr ())"
  by (simp add: bindIO_def runWithConfig_def releaseWithTag_def
        existingTagQuery_def applyStrategy_def createRelease_def publishAssets_def call_def
        staleReleasesWorld_def absentTagWorld_def absentTagConfig_def notFound_def)

lemma uploadFiles_append:
  "uploadFiles w config rid url undoTag (uploaded @ paths) s =
     (case uploadFiles w config rid url undoTag uploaded s of
        (s', Inl e) \<Rightarrow> (s', Inl e)
      | (s', Inr u) \<Rightarrow> uploadFiles w config rid url undoTag paths s')"
proof (induction uploaded arbitrary: s)
  case Nil
  show ?case by simp
next
  case (Cons p ps)
  show ?case
  proof (cases "statSize w p")
    case (Inl e)
    then show ?thesis by simp
  next
    case (Inr sz)
    obtain s1 r where rr:
      "runWithRetry w 4 4000 (uploadAttempt w config rid url p (basename p) sz) s = (s1, r)"
      by (cases "runWithRetry w 4 4000 (uploadAttempt w config rid url p (basename p) sz) s")
    show ?thesis
    proof (cases r)
      case (Inl e)
      with Inr rr show ?thesis by simp
    next
      case res: (Inr pr)
      obtain success err where pr: "pr = (success, err)" by (cases pr)
      show ?thesis
      proof (cases success)
        case True
        with Inr rr res pr Cons [of s1] show ?thesis by simp
      next
        case False
        with Inr rr res pr show ?thesis by (simp split: prod.splits)
      qed
    qed
  qed
qed

lemma uploadFiles_exhausted:
  assumes "uploadFiles w config rid url undoTag uploaded s0 = (s, Inr ())"
    and "statSize w path = Inr sz"
    and "runWithRetryLoop w 4 4000 (uploadAttempt w config rid url path (basename path) sz) 0 [] s =
           ((s1, r), outcomes)"
    and "None \<notin> set outcomes"
  shows "length outcomes = 4 \<and>
         uploadFiles w config rid url undoTag (uploaded @ path # rest) s0 =
           (case call (unitResponse w) (DeleteRelease (owner config) (repo config) rid) s1 of
              (s2, d) \<Rightarrow>
                (case undoTag
                        (case d of
                           Inr u \<Rightarrow> s2
                         | Inl e \<Rightarrow> s2 @ [LogError ''failed to delete release'' e]) of
                   (s3, r') \<Rightarrow>
                     ((case r' of
                         Inr u \<Rightarrow> s3
                       | Inl e \<Rightarrow> s3 @ [LogError ''failed to undo tag changes'' e]),
                      Inl (ActionError (''failed to upload file: '' @ path) (last outcomes)))))"
proof -
  have "(1::int) \<le> 4" by simp
  from loop_outcomes_start [OF this assms(3)]
  have n: "outcomes \<noteq> []"
    "(case last outcomes of
        None \<Rightarrow> r = Inr (True, None)
      | Some e \<Rightarrow> r = Inr (False, Some e) \<and> int (length outcomes) = 4)"
    by simp_all
  from n(1) assms(4) have "last outcomes \<noteq> None" by (metis last_in_set)
  then obtain e where e: "last outcomes = Some e" by auto
  with n(2) have r: "r = Inr (False, Some e)" and len: "length outcomes = 4" by simp_all
  have "runWithRetry w 4 4000 (uploadAttempt w config rid url path (basename path) sz) s =
      (s1, Inr (False, Some e))"
    using assms(3) r by (simp add: runWithRetry_def)
  with assms(2) e have "uploadFiles w config rid url undoTag (path # rest) s =
           (case call (unitResponse w) (DeleteRelease (owner config) (repo config) rid) s1 of
              (s2, d) \<Rightarrow>
                (case undoTag
                        (case d of
                           Inr u \<Rightarrow> s2
                         | Inl e \<Rightarrow> s2 @ [LogError ''failed to delete release'' e]) of
                   (s3, r') \<Rightarrow>
                     ((case r' of
                         Inr u \<Rightarrow> s3
                       | Inl e \<Rightarrow> s3 @ [LogError ''failed to undo tag changes'' e]),
                      Inl (ActionError (''failed to upload file: '' @ path) (last outcomes)))))"
    by (simp split: prod.splits)
  moreover have "uploadFiles w config rid url undoTag (uploaded @ path # rest) s0 =
      uploadFiles w config rid url undoTag (path # rest) s"
    using assms(1) by (simp add: uploadFiles_append)
  ultimately show ?thesis using len by simp
qed

lemma applyStrategy_undo:
  "applyStrategy w config existingTag s = (s1, Inr undoTag) \<Longrightarrow>
   undoTag =
     (if strategy config = UseExistingTag then (\<lambda>s'. (s', Inr ()))
      else (case existingTag of
              Some sha0 \<Rightarrow>
                call (unitResponse w)
                  (UpdateRef (owner config) (repo config) (''tags/'' @ tag config) (Some sha0) False)
            | None \<Rightarrow>
                call (unitResponse w)
                  (DeleteRef (owner config) (repo config) (''refs/tags/'' @ tag config))))"
  by (auto simp: applyStrategy_def split: if_splits option.splits sum.splits prod.splits)

lemma loop_rollback:
  "runWithRetryLoop rollbackWorld 4 4000
     (uploadAttempt rollbackWorld replaceConfig 1 ''u'' ''dist/a.zip''
        (basename ''dist/a.zip'') 7) 0 []
     [Call (GetRef ''o'' ''r'' ''tags/v1'') False,
      Call (ListReleases ''o'' ''r'') True,
      Call (CreateTag ''o'' ''r'' ''v1'' ''v1'' (Some ''abc123'') ''commit'') True,
      Call (CreateRef ''o'' ''r'' ''refs/tags/v1'' (Some ''abc123'')) True,
      Call (CreateRelease ''o'' ''r'' [] [] ''v1'' None False False) True] =
   (([Call (GetRef ''o'' ''r'' ''tags/v1'') False,
      Call (ListReleases ''o'' ''r'') True,
      Call (CreateTag ''o'' ''r'' ''v1'' ''v1'' (Some ''abc123'') ''commit'') True,
      Call (CreateRef ''o'' ''r'' ''refs/tags/v1'' (Some ''abc123'')) True,
      Call (CreateRelease ''o'' ''r'' [] [] ''v1'' None False False) True,
      Call (ListReleaseAssets ''o'' ''r'' 1) True,
      Call (UploadReleaseAsset ''dist/a.zip'' 7 ''application/octet-stream'' ''a.zip'' ''u'') False,
      Sleep 1500,
      Call (ListReleaseAssets ''o'' ''r'' 1) True,
      Call (UploadReleaseAsset ''dist/a.zip'' 7 ''application/octet-stream'' ''a.zip'' ''u'') False,
      Sleep 2500,
      Call (ListReleaseAssets ''o'' ''r'' 1) True,
      Call (UploadReleaseAsset ''dist/a.zip'' 7 ''application/octet-stream'' ''a.zip'' ''u'') False,
      Sleep 4000,
      Call (ListReleaseAssets ''o'' ''r'' 1) True,
      Call (UploadReleaseAsset ''dist/a.zip'' 7 ''application/octet-stream'' ''a.zip'' ''u'') False],
     Inr (False, Some serverError)),
    [Some serverError, Some serverError, Some serverError, Some serverError])"
  by (simp add: runWithRetryLoop.simps uploadAttempt_def bindIO_def call_def basename_def
        backoffDelay_def mathRound_def rollbackWorld_def absentTagWorld_def
        replaceConfig_def absentTagConfig_def)

section \<open>Properties\<close>

subsection \<open>C9: repository parsing\<close>

text \<open>
  C9, as amended. Let the repository input be non-empty and \<open>trim v\<close> the value
  \<open>getInput\<close> returns for it. If that value has no line terminator and is \<open>a\<close>, a slash
  and \<open>b\<close> with no slash in \<open>b\<close> (so the slash is the last one, and \<open>a\<close> may contain
  slashes), then the owner is \<open>a\<close> trimmed and the repository name is \<open>b\<close> trimmed,
  with an invalid-owner error when the trimmed owner is empty and an invalid-name
  error when the trimmed name is empty. If the value has no slash, or contains a line
  terminator, \<open>getRepo\<close> throws the format error.
\<close>

theorem getRepo_last_slash:
  assumes "getRawInput env ''repository'' = v" and "v \<noteq> []"
  shows "(\<forall>a b. trim v = a @ CHR ''/'' # b \<and> CHR ''/'' \<notin> set b \<and>
            list_all (\<lambda>c. \<not> isLineTerminator c) (trim v) \<longrightarrow>
          getRepo env =
            (if trim a = [] then Inl (ActionError ''repository owner is invalid: '' None)
             else if trim b = [] then Inl (ActionError ''repository name is invalid: '' None)
             else Inr (trim a, trim b))) \<and>
         (CHR ''/'' \<notin> set (trim v) \<or> \<not> list_all (\<lambda>c. \<not> isLineTerminator c) (trim v) \<longrightarrow>
          getRepo env =
            Inl (ActionError (''repository is not in the <owner>/<repo> format: '' @ trim v) None))"
proof -
  have full: "getInputRequired env ''repository'' = Inr (trim v)"
    using assms by (simp add: getInputRequired_def hasValue_def)
  show ?thesis
  proof (intro conjI allI impI)
    fix a b
    assume "trim v = a @ CHR ''/'' # b \<and> CHR ''/'' \<notin> set b \<and>
      list_all (\<lambda>c. \<not> isLineTerminator c) (trim v)"
    then have "matchRepo (trim v) = Some (a, b)"
      using matchRepo_split [of "trim v" a b] by blast
    then show "getRepo env =
        (if trim a = [] then Inl (ActionError ''repository owner is invalid: '' None)
         else if trim b = [] then Inl (ActionError ''repository name is invalid: '' None)
         else Inr (trim a, trim b))"
      using full by (simp add: getRepo_def)
  next
    assume "CHR ''/'' \<notin> set (trim v) \<or> \<not> list_all (\<lambda>c. \<not> isLineTerminator c) (trim v)"
    then have "matchRepo (trim v) = None" by (rule matchRepo_none)
    then show "getRepo env =
        Inl (ActionError (''repository is not in the <owner>/<repo> format: '' @ trim v) None)"
      using full by (simp add: getRepo_def)
  qed
qed

theorem getRepo_last_slash_witness:
  "getRawInput nestedOwnerEnv ''repository'' = '' a/b/c '' \<and>
   getRepo nestedOwnerEnv = Inr (''a/b'', ''c'')"
proof -
  have raw: "getRawInput nestedOwnerEnv ''repository'' = '' a/b/c ''"
    by (simp add: nestedOwnerEnv_def getRawInput_def string_defs)
  have ne: "'' a/b/c '' \<noteq> []" by simp
  have "trim '' a/b/c '' = ''a/b'' @ CHR ''/'' # ''c'' \<and> CHR ''/'' \<notin> set ''c'' \<and>
      list_all (\<lambda>c. \<not> isLineTerminator c) (trim '' a/b/c '')"
    by (simp add: string_defs)
  with getRepo_last_slash [OF raw ne] have "getRepo nestedOwnerEnv =
      (if trim ''a/b'' = [] then Inl (ActionError ''repository owner is invalid: '' None)
       else if trim ''c'' = [] then Inl (ActionError ''repository name is invalid: '' None)
       else Inr (trim ''a/b'', trim ''c''))"
    by blast
  then show ?thesis using raw by (simp add: string_defs)
qed

text \<open>
  C9 as stated fails where the input has a slash and a line terminator: the regular
  expression \<open>/^(.*)\\/(.*)$/\<close> does not match, since \<open>.\<close> matches no line terminator, and
  \<open>getRepo\<close> throws the format error instead of splitting at the last slash.
\<close>

theorem getRepo_line_terminator:
  "CHR ''/'' \<in> set (''a'' @ [LF] @ ''b/c'') \<and>
   getRawInput lineBreakEnv ''repository'' = ''a'' @ [LF] @ ''b/c'' \<and>
   getRepo lineBreakEnv =
     Inl (ActionError (''repository is not in the <owner>/<repo> format: '' @ ''a'' @ [LF] @ ''b/c'') None)"
  by (simp add: lineBreakEnv_def getRepo_def matchRepo_def splitsAt_def input_defs string_defs)

subsection \<open>C8: the tag-existence query\<close>

text \<open>
  C8. When the fetch of the tag ref throws, an HTTP error of status 404 is no error:
  \<open>existingTag\<close> stays undefined and the run goes on to list the releases. An HTTP
  error of any other status aborts the run with the error
  \<open>failed to verify if tag already exists\<close>, and a thrown value that is not an HTTP
  error aborts it with \<open>failed to verify if tag already exists (unknown error)\<close>; both
  carry the thrown value, and nothing is called after the fetch.
\<close>

theorem tag_query_failure:
  assumes "refResponse w s (GetRef (owner config) (repo config) (''tags/'' @ tag config)) = Inl err"
  shows "(isHttpError err \<and> errStatus err = StatusNumber 404 \<longrightarrow>
            existingTagQuery w config s =
              (s @ [Call (GetRef (owner config) (repo config) (''tags/'' @ tag config)) False],
               Inr None) \<and>
            (\<exists>ok rest. fst (runWithConfig w config s) =
               s @ Call (GetRef (owner config) (repo config) (''tags/'' @ tag config)) False #
                   Call (ListReleases (owner config) (repo config)) ok # rest)) \<and>
         (isHttpError err \<and> errStatus err \<noteq> StatusNumber 404 \<longrightarrow>
            runWithConfig w config s =
              (s @ [Call (GetRef (owner config) (repo config) (''tags/'' @ tag config)) False],
               Inl (ActionError ''failed to verify if tag already exists'' (Some err)))) \<and>
         (\<not> isHttpError err \<longrightarrow>
            runWithConfig w config s =
              (s @ [Call (GetRef (owner config) (repo config) (''tags/'' @ tag config)) False],
               Inl (ActionError ''failed to verify if tag already exists (unknown error)''
                      (Some err))))"
proof (intro conjI impI)
  let ?ev = "Call (GetRef (owner config) (repo config) (''tags/'' @ tag config)) False"
  assume h: "isHttpError err \<and> errStatus err = StatusNumber 404"
  with assms show q: "existingTagQuery w config s = (s @ [?ev], Inr None)"
    by (simp add: existingTagQuery_def call_def)
  obtain ok rest where
    "fst (releaseWithTag w config None (s @ [?ev])) =
       (s @ [?ev]) @ Call (ListReleases (owner config) (repo config)) ok # rest"
    using releaseWithTag_first [of w config None "s @ [?ev]"] by blast
  then have "fst (runWithConfig w config s) =
      s @ ?ev # Call (ListReleases (owner config) (repo config)) ok # rest"
    using q by (simp add: runWithConfig_def bindIO_def)
  then show "\<exists>ok rest. fst (runWithConfig w config s) =
      s @ ?ev # Call (ListReleases (owner config) (repo config)) ok # rest"
    by blast
next
  assume "isHttpError err \<and> errStatus err \<noteq> StatusNumber 404"
  with assms show "runWithConfig w config s =
      (s @ [Call (GetRef (owner config) (repo config) (''tags/'' @ tag config)) False],
       Inl (ActionError ''failed to verify if tag already exists'' (Some err)))"
    by (simp add: runWithConfig_def bindIO_def existingTagQuery_def call_def)
next
  assume "\<not> isHttpError err"
  with assms show "runWithConfig w config s =
      (s @ [Call (GetRef (owner config) (repo config) (''tags/'' @ tag config)) False],
       Inl (ActionError ''failed to verify if tag already exists (unknown error)'' (Some err)))"
    by (simp add: runWithConfig_def bindIO_def existingTagQuery_def call_def)
qed

theorem tag_query_failure_witness:
  "existingTagQuery absentTagWorld absentTagConfig [] =
     ([Call (GetRef ''o'' ''r'' ''tags/v1'') False], Inr None) \<and>
   runWithConfig serverErrorWorld absentTagConfig [] =
     ([Call (GetRef ''o'' ''r'' ''tags/v1'') False],
      Inl (ActionError ''failed to verify if tag already exists'' (Some serverError))) \<and>
   runWithConfig networkErrorWorld absentTagConfig [] =
     ([Call (GetRef ''o'' ''r'' ''tags/v1'') False],
      Inl (ActionError ''failed to verify if tag already exists (unknown error)''
             (Some timedOut)))"
proof (intro conjI)
  have "refResponse absentTagWorld []
      (GetRef (owner absentTagConfig) (repo absentTagConfig) (''tags/'' @ tag absentTagConfig)) =
      Inl notFound"
    by (simp add: absentTagWorld_def)
  from tag_query_failure [OF this]
  show "existingTagQuery absentTagWorld absentTagConfig [] =
     ([Call (GetRef ''o'' ''r'' ''tags/v1'') False], Inr None)"
    by (simp add: notFound_def absentTagConfig_def)
next
  have "refResponse serverErrorWorld []
      (GetRef (owner absentTagConfig) (repo absentTagConfig) (''tags/'' @ tag absentTagConfig)) =
      Inl serverError"
    by (simp add: serverErrorWorld_def)
  from tag_query_failure [OF this]
  show "runWithConfig serverErrorWorld absentTagConfig [] =
     ([Call (GetRef ''o'' ''r'' ''tags/v1'') False],
      Inl (ActionError ''failed to verify if tag already exists'' (Some serverError)))"
    by (simp add: serverError_def absentTagConfig_def)
next
  have "refResponse networkErrorWorld []
      (GetRef (owner absentTagConfig) (repo absentTagConfig) (''tags/'' @ tag absentTagConfig)) =
      Inl timedOut"
    by (simp add: networkErrorWorld_def)
  from tag_query_failure [OF this]
  show "runWithConfig networkErrorWorld absentTagConfig [] =
     ([Call (GetRef ''o'' ''r'' ''tags/v1'') False],
      Inl (ActionError ''failed to verify if tag already exists (unknown error)''
             (Some timedOut)))"
    by (simp add: timedOut_def absentTagConfig_def)
qed

subsection \<open>C2: fail-fast on an existing tag\<close>

text \<open>
  C2. When \<open>init\<close> returns a configuration with the strategy \<open>FailFast\<close> and the fetch of
  the tag ref returns, the run throws \<open>tag already exists\<close> right after the fetch: the
  trace of the whole run holds no call that changes the repository (no release
  deleted, no ref created, updated or deleted, no tag object and no release created).
\<close>

theorem fail_fast_existing_tag:
  assumes "init w [] = (s, Inr config)" and "strategy config = FailFast"
    and "refResponse w s (GetRef (owner config) (repo config) (''tags/'' @ tag config)) = Inr sha"
  shows "run w =
           (s @ [Call (GetRef (owner config) (repo config) (''tags/'' @ tag config)) True],
            Inl (ActionError ''tag already exists'' None)) \<and>
         (\<forall>e \<in> set (fst (run w)). \<not> isMutation e)"
proof -
  have r: "run w =
      (s @ [Call (GetRef (owner config) (repo config) (''tags/'' @ tag config)) True],
       Inl (ActionError ''tag already exists'' None))"
    using assms by (simp add: run_def runWithConfig_def bindIO_def existingTagQuery_def call_def)
  from init_trace [OF assms(1)]
  have "\<forall>e \<in> set s. \<not> isMutation e" by auto
  with r show ?thesis by simp
qed

theorem fail_fast_existing_tag_witness:
  "init failFastWorld [] = ([], Inr failFastConfig) \<and>
   run failFastWorld =
     ([Call (GetRef ''o'' ''r'' ''tags/v1'') True], Inl (ActionError ''tag already exists'' None))"
proof -
  have "strategy failFastConfig = FailFast"
    by (simp add: failFastConfig_def)
  moreover have "refResponse failFastWorld []
      (GetRef (owner failFastConfig) (repo failFastConfig) (''tags/'' @ tag failFastConfig)) =
      Inr ''def456''"
    by (simp add: failFastWorld_def absentTagWorld_def)
  ultimately show ?thesis
    using fail_fast_existing_tag [OF init_failFast]
    by (simp add: init_failFast failFastConfig_def absentTagConfig_def)
qed

subsection \<open>C1: the strategy \<open>UseExistingTag\<close> with an absent tag\<close>

text \<open>
  C1, as amended. With the strategy \<open>UseExistingTag\<close> and the tag absent (the fetch of
  the tag ref throws an HTTP error of status 404), the strategy decision raises no
  error and calls nothing: it returns the no-op undo action. Once the releases are
  listed and the stale ones deleted, the next call of the run is the creation of the
  release for the configured tag name.
\<close>

theorem use_existing_tag_absent_proceeds:
  assumes "strategy config = UseExistingTag"
    and "refResponse w s (GetRef (owner config) (repo config) (''tags/'' @ tag config)) = Inl err"
    and "isHttpError err" and "errStatus err = StatusNumber 404"
    and "releasesResponse w
           (s @ [Call (GetRef (owner config) (repo config) (''tags/'' @ tag config)) False])
           (ListReleases (owner config) (repo config)) = Inr releases"
    and "deleteReleases w config releases
           (s @ [Call (GetRef (owner config) (repo config) (''tags/'' @ tag config)) False,
                 Call (ListReleases (owner config) (repo config)) True]) = (s3, Inr u)"
  shows "applyStrategy w config None s3 = (s3, Inr (\<lambda>s'. (s', Inr ()))) \<and>
         (\<exists>ok rest. fst (runWithConfig w config s) =
            s3 @ Call (CreateRelease (owner config) (repo config) (title config) (body config)
                         (tag config) (discussionCategoryName config) (prerelease config)
                         (draft config)) ok # rest)"
proof
  show a: "applyStrategy w config None s3 = (s3, Inr (\<lambda>s'. (s', Inr ())))"
    using assms(1) by (simp add: applyStrategy_def)
  have q: "existingTagQuery w config s =
      (s @ [Call (GetRef (owner config) (repo config) (''tags/'' @ tag config)) False], Inr None)"
    using assms(2,3,4) by (simp add: existingTagQuery_def call_def)
  have "runWithConfig w config s =
      bindIO (createRelease w config (\<lambda>s'. (s', Inr ())))
        (publishAssets w config (\<lambda>s'. (s', Inr ()))) s3"
    using q assms(5,6) a
    by (simp add: runWithConfig_def releaseWithTag_def call_def
          bindIO_def [of "existingTagQuery _ _"] bindIO_def [of "call _ _"]
          bindIO_def [of "deleteReleases _ _ _"] bindIO_def [of "applyStrategy _ _ _"])
  then show "\<exists>ok rest. fst (runWithConfig w config s) =
            s3 @ Call (CreateRelease (owner config) (repo config) (title config) (body config)
                         (tag config) (discussionCategoryName config) (prerelease config)
                         (draft config)) ok # rest"
    using createRelease_first [OF appends_noop, of w config s3] by simp
qed

theorem use_existing_tag_absent_proceeds_witness:
  "applyStrategy absentTagWorld absentTagConfig None
     [Call (GetRef ''o'' ''r'' ''tags/v1'') False, Call (ListReleases ''o'' ''r'') True] =
   ([Call (GetRef ''o'' ''r'' ''tags/v1'') False, Call (ListReleases ''o'' ''r'') True],
    Inr (\<lambda>s'. (s', Inr ())))"
proof -
  have "strategy absentTagConfig = UseExistingTag"
    by (simp add: absentTagConfig_def)
  moreover have "refResponse absentTagWorld []
      (GetRef (owner absentTagConfig) (repo absentTagConfig) (''tags/'' @ tag absentTagConfig)) =
      Inl notFound"
    by (simp add: absentTagWorld_def)
  moreover have "isHttpError notFound" and "errStatus notFound = StatusNumber 404"
    by (simp_all add: notFound_def)
  moreover have "releasesResponse absentTagWorld
      ([] @ [Call (GetRef (owner absentTagConfig) (repo absentTagConfig)
                     (''tags/'' @ tag absentTagConfig)) False])
      (ListReleases (owner absentTagConfig) (repo absentTagConfig)) = Inr []"
    by (simp add: absentTagWorld_def)
  moreover have "deleteReleases absentTagWorld absentTagConfig []
      ([] @ [Call (GetRef (owner absentTagConfig) (repo absentTagConfig)
                     (''tags/'' @ tag absentTagConfig)) False,
             Call (ListReleases (owner absentTagConfig) (repo absentTagConfig)) True]) =
      ([Call (GetRef ''o'' ''r'' ''tags/v1'') False, Call (ListReleases ''o'' ''r'') True], Inr ())"
    by (simp add: absentTagConfig_def)
  ultimately show ?thesis
    by (rule use_existing_tag_absent_proceeds [THEN conjunct1])
qed

text \<open>
  C1 as stated fails: in the world below the strategy is \<open>use-existing-tag\<close> and the tag
  ref is not found, and the run creates the release and ends without an error.
\<close>

theorem use_existing_tag_absent_creates_release:
  "init absentTagWorld [] = ([], Inr absentTagConfig) \<and>
   strategy absentTagConfig = UseExistingTag \<and>
   refResponse absentTagWorld [] (GetRef ''o'' ''r'' ''tags/v1'') = Inl notFound \<and>
   run absentTagWorld =
     ([Call (GetRef ''o'' ''r'' ''tags/v1'') False,
       Call (ListReleases ''o'' ''r'') True,
       Call (CreateRelease ''o'' ''r'' [] [] ''v1'' None False False) True,
       SetOutput ''release-id'' 1],
      Inr ())"
proof -
  have "run absentTagWorld = runWithConfig absentTagWorld absentTagConfig []"
    by (simp add: run_def bindIO_def init_absentTag)
  also have "\<dots> =
     ([Call (GetRef ''o'' ''r'' ''tags/v1'') False,
       Call (ListReleases ''o'' ''r'') True,
       Call (CreateRelease ''o'' ''r'' [] [] ''v1'' None False False) True,
       SetOutput ''release-id'' 1],
      Inr ())"
    by (simp add: bindIO_def runWithConfig_def releaseWithTag_def
        existingTagQuery_def applyStrategy_def createRelease_def publishAssets_def call_def
        absentTagWorld_def absentTagConfig_def notFound_def)
  finally have "run absentTagWorld =
     ([Call (GetRef ''o'' ''r'' ''tags/v1'') False,
       Call (ListReleases ''o'' ''r'') True,
       Call (CreateRelease ''o'' ''r'' [] [] ''v1'' None False False) True,
       SetOutput ''release-id'' 1],
      Inr ())" .
  moreover have "strategy absentTagConfig = UseExistingTag"
    by (simp add: absentTagConfig_def)
  moreover have "refResponse absentTagWorld [] (GetRef ''o'' ''r'' ''tags/v1'') = Inl notFound"
    by (simp add: absentTagWorld_def)
  ultimately show ?thesis using init_absentTag by simp
qed

subsection \<open>C3: the target and the strategy\<close>

text \<open>
  C3, as amended. When the inputs before the target resolution are read without
  error: an absent target with the strategy \<open>Replace\<close> or \<open>FailFast\<close> makes \<open>init\<close> throw
  the missing-parameter error for \<open>target\<close>; a supplied target with the strategy
  \<open>UseExistingTag\<close> makes \<open>init\<close> throw the incompatible-parameter error provided the
  target resolves (it has no slash, or the lookup of the ref returns). Every
  configuration \<open>init\<close> returns has a \<open>targetSha\<close> iff its strategy is not
  \<open>UseExistingTag\<close>.
\<close>

theorem init_target_strategy:
  "(readInputs w = Inr (config, strategy', target) \<longrightarrow>
      (target = None \<and> (strategy' = Replace \<or> strategy' = FailFast) \<longrightarrow>
         init w s = (s, Inl (InputParameterRequiredError ''target''))) \<and>
      (\<forall>t. target = Some t \<and> strategy' = UseExistingTag \<and>
            (CHR ''/'' \<notin> set t \<or>
             (\<exists>sha. refResponse w s (GetRef (owner config) (repo config) (stripRefs t)) = Inr sha)) \<longrightarrow>
         snd (init w s) = Inl (InputParameterIncompatibleStrategyError ''target'' UseExistingTag))) \<and>
   (\<forall>s1 cfg. init w s = (s1, Inr cfg) \<longrightarrow>
      (targetSha cfg \<noteq> None) = (strategy cfg \<noteq> UseExistingTag))"
proof (intro conjI impI allI)
  assume "readInputs w = Inr (config, strategy', target)"
    and "target = None \<and> (strategy' = Replace \<or> strategy' = FailFast)"
  then show "init w s = (s, Inl (InputParameterRequiredError ''target''))"
    by (auto simp: init_def resolveTarget_def)
next
  fix t
  assume "readInputs w = Inr (config, strategy', target)"
    and "target = Some t \<and> strategy' = UseExistingTag \<and>
      (CHR ''/'' \<notin> set t \<or>
       (\<exists>sha. refResponse w s (GetRef (owner config) (repo config) (stripRefs t)) = Inr sha))"
  then show "snd (init w s) = Inl (InputParameterIncompatibleStrategyError ''target'' UseExistingTag)"
    by (auto simp: init_def resolveTarget_def call_def)
next
  fix s1 cfg
  assume "init w s = (s1, Inr cfg)"
  then show "(targetSha cfg \<noteq> None) = (strategy cfg \<noteq> UseExistingTag)"
    by (auto simp: init_def makeConfig_def
             split: sum.splits prod.splits option.splits if_splits)
qed

theorem init_target_strategy_witness:
  "init missingTargetWorld [] = ([], Inl (InputParameterRequiredError ''target'')) \<and>
   snd (init incompatibleTargetWorld []) =
     Inl (InputParameterIncompatibleStrategyError ''target'' UseExistingTag) \<and>
   (targetSha failFastConfig \<noteq> None) = (strategy failFastConfig \<noteq> UseExistingTag)"
proof (intro conjI)
  show "init missingTargetWorld [] = ([], Inl (InputParameterRequiredError ''target''))"
    using init_target_strategy [of missingTargetWorld baseConfig Replace None "[]"]
      readInputs_missingTarget by simp
next
  have "CHR ''/'' \<notin> set ''abc123''" by simp
  then show "snd (init incompatibleTargetWorld []) =
      Inl (InputParameterIncompatibleStrategyError ''target'' UseExistingTag)"
    using init_target_strategy
        [of incompatibleTargetWorld baseConfig UseExistingTag "Some ''abc123''" "[]"]
      readInputs_incompatibleTarget by blast
next
  show "(targetSha failFastConfig \<noteq> None) = (strategy failFastConfig \<noteq> UseExistingTag)"
    using init_target_strategy [of failFastWorld baseConfig FailFast None "[]"]
      init_failFast by blast
qed

text \<open>
  C3 as stated fails where the target is a ref that does not resolve: the target is
  supplied and the strategy is \<open>UseExistingTag\<close>, but the lookup comes first and \<open>init\<close>
  throws \<open>failed to resolve target ref\<close>, not the incompatible-parameter error.
\<close>

theorem init_unresolved_target:
  "readInputs unresolvedTargetWorld = Inr (baseConfig, UseExistingTag, Some ''refs/heads/main'') \<and>
   init unresolvedTargetWorld [] =
     ([Call (GetRef ''o'' ''r'' ''heads/main'') False],
      Inl (ActionError ''failed to resolve target ref'' (Some notFound)))"
proof -
  have "refResponse unresolvedTargetWorld [] (GetRef ''o'' ''r'' ''heads/main'') = Inl notFound"
    by (simp add: world_defs)
  then have "init unresolvedTargetWorld [] =
     ([Call (GetRef ''o'' ''r'' ''heads/main'') False],
      Inl (ActionError ''failed to resolve target ref'' (Some notFound)))"
    by (simp add: init_def readInputs_unresolvedTarget resolveTarget_def stripRefs_def call_def
          baseConfig_def)
  then show ?thesis using readInputs_unresolvedTarget by simp
qed

subsection \<open>C7: target resolution\<close>

text \<open>
  C7. Let \<open>t\<close> be the target input as \<open>getInput\<close> returns it, the inputs before it being
  read without error. If \<open>t\<close> contains a slash, \<open>init\<close> looks up the ref \<open>stripRefs t\<close> (\<open>t\<close>
  without one leading \<open>refs/\<close>): when the lookup returns a sha, that sha is the
  \<open>targetSha\<close> (of the configuration returned, unless the strategy is \<open>UseExistingTag\<close>,
  which is then incompatible); when it throws, \<open>init\<close> throws
  \<open>failed to resolve target ref\<close>. If \<open>t\<close> contains no slash, \<open>t\<close> itself is the
  \<open>targetSha\<close> and the trace is unchanged: no lookup is made.
\<close>

theorem target_resolution:
  assumes "readInputs w = Inr (config, strategy', Some t)"
  shows "(CHR ''/'' \<in> set t \<longrightarrow>
            (\<forall>sha. refResponse w s (GetRef (owner config) (repo config) (stripRefs t)) = Inr sha \<longrightarrow>
               init w s =
                 (s @ [Call (GetRef (owner config) (repo config) (stripRefs t)) True],
                  if strategy' = UseExistingTag
                  then Inl (InputParameterIncompatibleStrategyError ''target'' strategy')
                  else Inr (makeConfig config strategy' (Some sha)))) \<and>
            (\<forall>err. refResponse w s (GetRef (owner config) (repo config) (stripRefs t)) = Inl err \<longrightarrow>
               init w s =
                 (s @ [Call (GetRef (owner config) (repo config) (stripRefs t)) False],
                  Inl (ActionError ''failed to resolve target ref'' (Some err))))) \<and>
         (CHR ''/'' \<notin> set t \<longrightarrow>
            init w s =
              (s, if strategy' = UseExistingTag
                  then Inl (InputParameterIncompatibleStrategyError ''target'' strategy')
                  else Inr (makeConfig config strategy' (Some t)))) \<and>
         targetSha (makeConfig config strategy' x) = x \<and>
         stripRefs (''refs/'' @ rest) = rest \<and>
         (take 5 t \<noteq> ''refs/'' \<longrightarrow> stripRefs t = t)"
  using assms
  by (auto simp: init_def resolveTarget_def call_def makeConfig_def stripRefs_def)

theorem target_resolution_witness:
  "init refTargetWorld [] =
     ([Call (GetRef ''o'' ''r'' ''heads/main'') True],
      Inr (makeConfig baseConfig FailFast (Some ''def456''))) \<and>
   init failFastWorld [] = ([], Inr (makeConfig baseConfig FailFast (Some ''abc123'')))"
proof (intro conjI)
  have "CHR ''/'' \<in> set ''refs/heads/main''" by simp
  moreover have "refResponse refTargetWorld []
      (GetRef (owner baseConfig) (repo baseConfig) (stripRefs ''refs/heads/main'')) = Inr ''def456''"
    by (simp add: world_defs)
  ultimately have "init refTargetWorld [] =
      ([] @ [Call (GetRef (owner baseConfig) (repo baseConfig) (stripRefs ''refs/heads/main''))
               True],
       if FailFast = UseExistingTag
       then Inl (InputParameterIncompatibleStrategyError ''target'' FailFast)
       else Inr (makeConfig baseConfig FailFast (Some ''def456'')))"
    using target_resolution [OF readInputs_refTarget, of "[]"] by blast
  then show "init refTargetWorld [] =
     ([Call (GetRef ''o'' ''r'' ''heads/main'') True],
      Inr (makeConfig baseConfig FailFast (Some ''def456'')))"
    by (simp add: baseConfig_def stripRefs_def)
next
  have "CHR ''/'' \<notin> set ''abc123''" by simp
  then have "init failFastWorld [] =
      ([], if FailFast = UseExistingTag
           then Inl (InputParameterIncompatibleStrategyError ''target'' FailFast)
           else Inr (makeConfig baseConfig FailFast (Some ''abc123'')))"
    using target_resolution [OF readInputs_failFast, of "[]"] by blast
  then show "init failFastWorld [] = ([], Inr (makeConfig baseConfig FailFast (Some ''abc123'')))"
    by simp
qed

subsection \<open>C10: the retry helper returns\<close>

text \<open>
  C10. For every count \<open>attempts\<close> of at least 1, \<open>runWithRetry\<close> returns and does not
  reach the \<open>unreachable()\<close> after its loop. The operation is invoked at least once and
  at most \<open>attempts\<close> times, and every invocation but the last one threw. If an
  invocation returned, the result is \<open>[true, undefined]\<close>; otherwise the operation was
  invoked \<open>attempts\<close> times and the result is \<open>[false, e]\<close>, where \<open>e\<close> is what the last
  invocation threw.
\<close>

theorem runWithRetry_result:
  assumes "1 \<le> attempts"
    and "runWithRetryLoop w attempts maxDelay f 0 [] s = ((s', r), outcomes)"
  shows "runWithRetry w attempts maxDelay f s = (s', r) \<and>
         r \<noteq> Inl Unreachable \<and>
         outcomes \<noteq> [] \<and> int (length outcomes) \<le> attempts \<and>
         None \<notin> set (butlast outcomes) \<and>
         (None \<in> set outcomes \<longrightarrow> r = Inr (True, None)) \<and>
         (None \<notin> set outcomes \<longrightarrow>
            (\<exists>e. last outcomes = Some e \<and> r = Inr (False, Some e)) \<and>
            int (length outcomes) = attempts)"
proof -
  from loop_outcomes_start [OF assms]
  have n: "outcomes \<noteq> []" "int (length outcomes) \<le> attempts" "None \<notin> set (butlast outcomes)"
    "(case last outcomes of
        None \<Rightarrow> r = Inr (True, None)
      | Some e \<Rightarrow> r = Inr (False, Some e) \<and> int (length outcomes) = attempts)"
    by simp_all
  have mem: "None \<in> set outcomes \<longleftrightarrow> last outcomes = None"
  proof
    assume "None \<in> set outcomes"
    then have "None \<in> set (butlast outcomes @ [last outcomes])" using n(1) by simp
    with n(3) show "last outcomes = None" by auto
  next
    assume "last outcomes = None"
    with n(1) show "None \<in> set outcomes" by (metis last_in_set)
  qed
  have "runWithRetry w attempts maxDelay f s = (s', r)"
    using assms(2) by (simp add: runWithRetry_def)
  moreover have "r \<noteq> Inl Unreachable"
    using n(4) by (auto split: option.splits)
  moreover have "None \<in> set outcomes \<longrightarrow> r = Inr (True, None)"
    using n(4) mem by (auto split: option.splits)
  moreover have "None \<notin> set outcomes \<longrightarrow>
      (\<exists>e. last outcomes = Some e \<and> r = Inr (False, Some e)) \<and>
      int (length outcomes) = attempts"
    using n(4) mem by (auto split: option.splits)
  ultimately show ?thesis using n(1,2,3) by blast
qed

theorem runWithRetry_result_witness:
  "runWithRetry failingUploadWorld 2 4000 alwaysFails [] =
     ([LogError ''attempt'' timedOut, Sleep 1500, LogError ''attempt'' timedOut],
      Inr (False, Some timedOut))"
proof -
  have "(1::int) \<le> 2" by simp
  from runWithRetry_result [OF this loop_alwaysFails]
  show ?thesis by simp
qed

subsection \<open>C6: the retry schedule of an upload\<close>

text \<open>
  C6. With 4 attempts and a maximal delay of 4000, and \<open>Math.random()\<close> in the interval
  from 0 to 1 (1 excluded): the operation is run at most 4 times, each run after the
  first only when the one before threw, and the first return ends the loop; between
  a failed attempt \<open>i\<close> (counted from 0) and the next attempt there is one sleep, of
  \<open>min(4000, round((2^i + r) * 1000))\<close> for some \<open>r\<close> of that interval, which is between
  1000 and 2000 after the first attempt, between 2000 and 3000 after the second and
  4000 after the third; nothing follows the fourth attempt.
\<close>

theorem upload_retry_schedule:
  assumes "\<forall>h. 0 \<le> mathRandom w h \<and> mathRandom w h < 1"
  shows "runWithRetry w 4 4000 f s =
           (case f s of
              (s1, Inr u) \<Rightarrow> (s1, Inr (True, None))
            | (s1, Inl e1) \<Rightarrow>
           (case f (s1 @ [Sleep (backoffDelay w 4000 0 s1)]) of
              (s2, Inr u) \<Rightarrow> (s2, Inr (True, None))
            | (s2, Inl e2) \<Rightarrow>
           (case f (s2 @ [Sleep (backoffDelay w 4000 1 s2)]) of
              (s3, Inr u) \<Rightarrow> (s3, Inr (True, None))
            | (s3, Inl e3) \<Rightarrow>
           (case f (s3 @ [Sleep (backoffDelay w 4000 2 s3)]) of
              (s4, Inr u) \<Rightarrow> (s4, Inr (True, None))
            | (s4, Inl e4) \<Rightarrow> (s4, Inr (False, Some e4)))))) \<and>
         (\<forall>i h. \<exists>r. 0 \<le> r \<and> r < 1 \<and>
            backoffDelay w 4000 i h = min 4000 (mathRound ((2 ^ i + r) * 1000))) \<and>
         (\<forall>h. 1000 \<le> backoffDelay w 4000 0 h \<and> backoffDelay w 4000 0 h \<le> 2000 \<and>
              2000 \<le> backoffDelay w 4000 1 h \<and> backoffDelay w 4000 1 h \<le> 3000 \<and>
              backoffDelay w 4000 2 h = 4000) \<and>
         length (snd (runWithRetryLoop w 4 4000 f 0 [] s)) \<le> 4 \<and>
         None \<notin> set (butlast (snd (runWithRetryLoop w 4 4000 f 0 [] s)))"
proof -
  have A: "runWithRetry w 4 4000 f s =
           (case f s of
              (s1, Inr u) \<Rightarrow> (s1, Inr (True, None))
            | (s1, Inl e1) \<Rightarrow>
           (case f (s1 @ [Sleep (backoffDelay w 4000 0 s1)]) of
              (s2, Inr u) \<Rightarrow> (s2, Inr (True, None))
            | (s2, Inl e2) \<Rightarrow>
           (case f (s2 @ [Sleep (backoffDelay w 4000 1 s2)]) of
              (s3, Inr u) \<Rightarrow> (s3, Inr (True, None))
            | (s3, Inl e3) \<Rightarrow>
           (case f (s3 @ [Sleep (backoffDelay w 4000 2 s3)]) of
              (s4, Inr u) \<Rightarrow> (s4, Inr (True, None))
            | (s4, Inl e4) \<Rightarrow> (s4, Inr (False, Some e4))))))"
    by (rule runWithRetry_four)
  have B: "\<forall>i h. \<exists>r. 0 \<le> r \<and> r < 1 \<and>
      backoffDelay w 4000 i h = min 4000 (mathRound ((2 ^ i + r) * 1000))"
    using assms backoffDelay_formula by blast
  have C: "\<forall>h. 1000 \<le> backoffDelay w 4000 0 h \<and> backoffDelay w 4000 0 h \<le> 2000 \<and>
        2000 \<le> backoffDelay w 4000 1 h \<and> backoffDelay w 4000 1 h \<le> 3000 \<and>
        backoffDelay w 4000 2 h = 4000"
    using assms backoffDelay_bounds by blast
  obtain s' r outs where l: "runWithRetryLoop w 4 4000 f 0 [] s = ((s', r), outs)"
    by (metis surj_pair)
  have "(1::int) \<le> 4" by simp
  from loop_outcomes_start [OF this l]
  have "int (length outs) \<le> 4" and "None \<notin> set (butlast outs)" by simp_all
  with l have D: "length (snd (runWithRetryLoop w 4 4000 f 0 [] s)) \<le> 4"
    and E: "None \<notin> set (butlast (snd (runWithRetryLoop w 4 4000 f 0 [] s)))"
    by simp_all
  show ?thesis
    by (rule conjI [OF A conjI [OF B conjI [OF C conjI [OF D E]]]])
qed

theorem upload_retry_schedule_witness:
  "runWithRetry failingUploadWorld 4 4000 alwaysFails [] =
     ([LogError ''attempt'' timedOut, Sleep 1500, LogError ''attempt'' timedOut, Sleep 2500,
       LogError ''attempt'' timedOut, Sleep 4000, LogError ''attempt'' timedOut],
      Inr (False, Some timedOut))"
proof -
  have "\<forall>h. 0 \<le> mathRandom failingUploadWorld h \<and> mathRandom failingUploadWorld h < 1"
    by (simp add: failingUploadWorld_def)
  from upload_retry_schedule [OF this, of alwaysFails "[]"]
  show ?thesis
    by (simp add: alwaysFails_def backoffDelay_def mathRound_def failingUploadWorld_def)
qed

subsection \<open>C5: all attempts of an upload fail\<close>

text \<open>
  C5. Let the run have created the release: the tag query and the cleanup passed, the
  strategy decision returned its undo action \<open>undoTag\<close>, and the creation returned the
  id \<open>releaseId\<close>. Let the files before \<open>path\<close> be uploaded, and let every attempt to
  upload \<open>path\<close> throw. Then there were 4 attempts, and the run ends as follows: it
  deletes the release of id \<open>releaseId\<close>, the one it just created (a throw of the
  deletion is logged); then it awaits \<open>undoTag\<close>, the action the strategy decision
  registered, which is the no-op, the restoring of the ref to its former sha, or the
  deletion of the new ref (a throw of it is logged); then it throws
  \<open>failed to upload file\<close> with the error of the last attempt. The files after \<open>path\<close>
  play no part in the result: they are never uploaded, and no output is set.
\<close>

theorem run_upload_retries_exhausted:
  assumes "existingTagQuery w config s = (s1, Inr existingTag)"
    and "\<not> (existingTag \<noteq> None \<and> strategy config = FailFast)"
    and "releasesResponse w s1 (ListReleases (owner config) (repo config)) = Inr releases"
    and "deleteReleases w config releases
           (s1 @ [Call (ListReleases (owner config) (repo config)) True]) = (s2, Inr u)"
    and "applyStrategy w config existingTag s2 = (s3, Inr undoTag)"
    and "releaseResponse w s3
           (CreateRelease (owner config) (repo config) (title config) (body config) (tag config)
              (discussionCategoryName config) (prerelease config) (draft config)) =
         Inr (releaseId, releaseUploadUrl)"
    and "globFiles w (files config) = Inr (uploaded @ path # rest)"
    and "uploadFiles w config releaseId releaseUploadUrl undoTag uploaded
           (s3 @ [Call (CreateRelease (owner config) (repo config) (title config) (body config)
                          (tag config) (discussionCategoryName config) (prerelease config)
                          (draft config)) True]) = (s4, Inr ())"
    and "statSize w path = Inr sz"
    and "runWithRetryLoop w 4 4000
           (uploadAttempt w config releaseId releaseUploadUrl path (basename path) sz) 0 [] s4 =
         ((s5, r), outcomes)"
    and "None \<notin> set outcomes"
  shows "length outcomes = 4 \<and>
         undoTag =
           (if strategy config = UseExistingTag then (\<lambda>s'. (s', Inr ()))
            else (case existingTag of
                    Some sha0 \<Rightarrow>
                      call (unitResponse w)
                        (UpdateRef (owner config) (repo config) (''tags/'' @ tag config)
                           (Some sha0) False)
                  | None \<Rightarrow>
                      call (unitResponse w)
                        (DeleteRef (owner config) (repo config) (''refs/tags/'' @ tag config)))) \<and>
         runWithConfig w config s =
           (case call (unitResponse w) (DeleteRelease (owner config) (repo config) releaseId) s5 of
              (s6, d) \<Rightarrow>
                (case undoTag
                        (case d of
                           Inr u \<Rightarrow> s6
                         | Inl e \<Rightarrow> s6 @ [LogError ''failed to delete release'' e]) of
                   (s7, r') \<Rightarrow>
                     ((case r' of
                         Inr u \<Rightarrow> s7
                       | Inl e \<Rightarrow> s7 @ [LogError ''failed to undo tag changes'' e]),
                      Inl (ActionError (''failed to upload file: '' @ path) (last outcomes)))))"
proof -
  let ?cr = "CreateRelease (owner config) (repo config) (title config) (body config) (tag config)
              (discussionCategoryName config) (prerelease config) (draft config)"
  let ?end = "case call (unitResponse w) (DeleteRelease (owner config) (repo config) releaseId) s5 of
              (s6, d) \<Rightarrow>
                (case undoTag
                        (case d of
                           Inr u \<Rightarrow> s6
                         | Inl e \<Rightarrow> s6 @ [LogError ''failed to delete release'' e]) of
                   (s7, r') \<Rightarrow>
                     ((case r' of
                         Inr u \<Rightarrow> s7
                       | Inl e \<Rightarrow> s7 @ [LogError ''failed to undo tag changes'' e]),
                      Inl (ActionError (''failed to upload file: '' @ path) (last outcomes))
                        :: thrown + unit))"
  from uploadFiles_exhausted [OF assms(8,9,10,11), of rest]
  have len: "length outcomes = 4"
    and up: "uploadFiles w config releaseId releaseUploadUrl undoTag (uploaded @ path # rest)
               (s3 @ [Call ?cr True]) = ?end"
    by simp_all
  have "snd ?end = Inl (ActionError (''failed to upload file: '' @ path) (last outcomes))"
    by (simp split: prod.splits)
  moreover obtain t x where "?end = (t, x)"
    by (cases ?end)
  ultimately have te: "?end = (t, Inl (ActionError (''failed to upload file: '' @ path)
      (last outcomes)))"
    by simp
  have "runWithConfig w config s = releaseWithTag w config existingTag s1"
    using assms(1,2) by (auto simp: runWithConfig_def bindIO_def)
  also have "\<dots> = bindIO (createRelease w config undoTag) (publishAssets w config undoTag) s3"
    using assms(3,4,5)
    by (simp add: releaseWithTag_def call_def bindIO_def [of "call _ _"]
          bindIO_def [of "deleteReleases _ _ _"] bindIO_def [of "applyStrategy _ _ _"])
  also have "\<dots> = publishAssets w config undoTag (releaseId, releaseUploadUrl)
                      (s3 @ [Call ?cr True])"
    using assms(6) by (simp add: createRelease_def call_def bindIO_def)
  also have "\<dots> = ?end"
    using assms(7) up te by (simp add: publishAssets_def bindIO_def)
  finally have "runWithConfig w config s = ?end" .
  with len applyStrategy_undo [OF assms(5)] show ?thesis by blast
qed

theorem run_upload_retries_exhausted_witness:
  "runWithConfig rollbackWorld replaceConfig [] =
   ([Call (GetRef ''o'' ''r'' ''tags/v1'') False,
     Call (ListReleases ''o'' ''r'') True,
     Call (CreateTag ''o'' ''r'' ''v1'' ''v1'' (Some ''abc123'') ''commit'') True,
     Call (CreateRef ''o'' ''r'' ''refs/tags/v1'' (Some ''abc123'')) True,
     Call (CreateRelease ''o'' ''r'' [] [] ''v1'' None False False) True,
     Call (ListReleaseAssets ''o'' ''r'' 1) True,
     Call (UploadReleaseAsset ''dist/a.zip'' 7 ''application/octet-stream'' ''a.zip'' ''u'') False,
     Sleep 1500,
     Call (ListReleaseAssets ''o'' ''r'' 1) True,
     Call (UploadReleaseAsset ''dist/a.zip'' 7 ''application/octet-stream'' ''a.zip'' ''u'') False,
     Sleep 2500,
     Call (ListReleaseAssets ''o'' ''r'' 1) True,
     Call (UploadReleaseAsset ''dist/a.zip'' 7 ''application/octet-stream'' ''a.zip'' ''u'') False,
     Sleep 4000,
     Call (ListReleaseAssets ''o'' ''r'' 1) True,
     Call (UploadReleaseAsset ''dist/a.zip'' 7 ''application/octet-stream'' ''a.zip'' ''u'') False,
     Call (DeleteRelease ''o'' ''r'' 1) True,
     Call (DeleteRef ''o'' ''r'' ''refs/tags/v1'') False,
     LogError ''failed to undo tag changes'' serverError],
    Inl (ActionError ''failed to upload file: dist/a.zip'' (Some serverError)))"
proof -
  let ?undo = "call (unitResponse rollbackWorld) (DeleteRef ''o'' ''r'' ''refs/tags/v1'')"
  have cfg: "owner replaceConfig = ''o''" "repo replaceConfig = ''r''" "tag replaceConfig = ''v1''"
    "title replaceConfig = []" "body replaceConfig = []" "tagMessage replaceConfig = ''v1''"
    "discussionCategoryName replaceConfig = None" "prerelease replaceConfig = False"
    "draft replaceConfig = False" "files replaceConfig = []" "strategy replaceConfig = Replace"
    "targetSha replaceConfig = Some ''abc123''"
    by (simp_all add: replaceConfig_def absentTagConfig_def)
  have h1: "existingTagQuery rollbackWorld replaceConfig [] =
      ([Call (GetRef ''o'' ''r'' ''tags/v1'') False], Inr None)"
    by (simp add: existingTagQuery_def call_def cfg rollbackWorld_def absentTagWorld_def
          notFound_def)
  have h2: "\<not> ((None :: string option) \<noteq> None \<and> strategy replaceConfig = FailFast)"
    by simp
  have h3: "releasesResponse rollbackWorld [Call (GetRef ''o'' ''r'' ''tags/v1'') False]
      (ListReleases (owner replaceConfig) (repo replaceConfig)) = Inr []"
    by (simp add: rollbackWorld_def absentTagWorld_def)
  have h4: "deleteReleases rollbackWorld replaceConfig []
      ([Call (GetRef ''o'' ''r'' ''tags/v1'') False] @
       [Call (ListReleases (owner replaceConfig) (repo replaceConfig)) True]) =
      ([Call (GetRef ''o'' ''r'' ''tags/v1'') False, Call (ListReleases ''o'' ''r'') True], Inr ())"
    by (simp add: cfg)
  have h5: "applyStrategy rollbackWorld replaceConfig None
      [Call (GetRef ''o'' ''r'' ''tags/v1'') False, Call (ListReleases ''o'' ''r'') True] =
      ([Call (GetRef ''o'' ''r'' ''tags/v1'') False, Call (ListReleases ''o'' ''r'') True,
        Call (CreateTag ''o'' ''r'' ''v1'' ''v1'' (Some ''abc123'') ''commit'') True,
        Call (CreateRef ''o'' ''r'' ''refs/tags/v1'' (Some ''abc123'')) True], Inr ?undo)"
    by (simp add: applyStrategy_def call_def cfg rollbackWorld_def)
  have h6: "releaseResponse rollbackWorld
      [Call (GetRef ''o'' ''r'' ''tags/v1'') False, Call (ListReleases ''o'' ''r'') True,
       Call (CreateTag ''o'' ''r'' ''v1'' ''v1'' (Some ''abc123'') ''commit'') True,
       Call (CreateRef ''o'' ''r'' ''refs/tags/v1'' (Some ''abc123'')) True]
      (CreateRelease (owner replaceConfig) (repo replaceConfig) (title replaceConfig)
         (body replaceConfig) (tag replaceConfig) (discussionCategoryName replaceConfig)
         (prerelease replaceConfig) (draft replaceConfig)) = Inr (1, ''u'')"
    by (simp add: rollbackWorld_def absentTagWorld_def)
  have h7: "globFiles rollbackWorld (files replaceConfig) = Inr ([] @ ''dist/a.zip'' # [''b.zip''])"
    by (simp add: rollbackWorld_def)
  have h8: "uploadFiles rollbackWorld replaceConfig 1 ''u'' ?undo []
      ([Call (GetRef ''o'' ''r'' ''tags/v1'') False, Call (ListReleases ''o'' ''r'') True,
        Call (CreateTag ''o'' ''r'' ''v1'' ''v1'' (Some ''abc123'') ''commit'') True,
        Call (CreateRef ''o'' ''r'' ''refs/tags/v1'' (Some ''abc123'')) True] @
       [Call (CreateRelease (owner replaceConfig) (repo replaceConfig) (title replaceConfig)
                (body replaceConfig) (tag replaceConfig) (discussionCategoryName replaceConfig)
                (prerelease replaceConfig) (draft replaceConfig)) True]) =
      ([Call (GetRef ''o'' ''r'' ''tags/v1'') False, Call (ListReleases ''o'' ''r'') True,
        Call (CreateTag ''o'' ''r'' ''v1'' ''v1'' (Some ''abc123'') ''commit'') True,
        Call (CreateRef ''o'' ''r'' ''refs/tags/v1'' (Some ''abc123'')) True,
        Call (CreateRelease ''o'' ''r'' [] [] ''v1'' None False False) True], Inr ())"
    by (simp add: cfg)
  have h9: "statSize rollbackWorld ''dist/a.zip'' = Inr 7"
    by (simp add: rollbackWorld_def absentTagWorld_def)
  have h11: "None \<notin> set [Some serverError, Some serverError, Some serverError, Some serverError]"
    by simp
  from run_upload_retries_exhausted [OF h1 h2 h3 h4 h5 h6 h7 h8 h9 loop_rollback h11]
  show ?thesis
    by (simp add: call_def cfg rollbackWorld_def)
qed

subsection \<open>C4: the stale releases\<close>

text \<open>
  C4. Whatever the strategy, once the run has listed the releases (the tag-existence
  query returned or found no tag, and the fail-fast check passed), it deletes the
  listed releases whose \<open>tag_name\<close> is the configured tag, in the order of the list, and
  no other. Either every one of them is deleted before anything else happens, and
  from there no release is deleted before the call that creates the new release; or
  one deletion throws, and the run ends there with what it threw, having deleted only
  such releases and created none.
\<close>

theorem stale_releases_deleted:
  assumes "existingTagQuery w config s = (s1, Inr existingTag)"
    and "\<not> (existingTag \<noteq> None \<and> strategy config = FailFast)"
    and "releasesResponse w s1 (ListReleases (owner config) (repo config)) = Inr releases"
  shows "(\<exists>post. fst (runWithConfig w config s) =
            s1 @ Call (ListReleases (owner config) (repo config)) True #
              map (deletion config True) (staleReleases config releases) @ post \<and>
            noDeleteBeforeCreate post) \<or>
         (\<exists>k e. k < length (staleReleases config releases) \<and>
            runWithConfig w config s =
              (s1 @ Call (ListReleases (owner config) (repo config)) True #
                 map (deletion config True) (take k (staleReleases config releases)) @
                 [deletion config False (staleReleases config releases ! k)],
               Inl e))"
proof -
  let ?s2 = "s1 @ [Call (ListReleases (owner config) (repo config)) True]"
  let ?k = "\<lambda>u. bindIO (applyStrategy w config existingTag)
      (\<lambda>undoTag. bindIO (createRelease w config undoTag) (publishAssets w config undoTag))"
  have run: "runWithConfig w config s = bindIO (deleteReleases w config releases) ?k ?s2"
    using assms
    by (auto simp: runWithConfig_def releaseWithTag_def call_def
          bindIO_def [of "existingTagQuery _ _"] bindIO_def [of "call _ _"])
  from deleteReleases_trace [of w config releases ?s2] show ?thesis
  proof
    assume "\<exists>u. deleteReleases w config releases ?s2 =
        (?s2 @ map (deletion config True) (staleReleases config releases), Inr u)"
    then obtain u where d: "deleteReleases w config releases ?s2 =
        (?s2 @ map (deletion config True) (staleReleases config releases), Inr u)"
      by blast
    let ?s3 = "?s2 @ map (deletion config True) (staleReleases config releases)"
    obtain post where "fst (?k u ?s3) = ?s3 @ post" and "noDeleteBeforeCreate post"
      using afterCleanup_trace [of w config existingTag ?s3] by blast
    moreover have "runWithConfig w config s = ?k u ?s3"
      using run d by (simp add: bindIO_def [of "deleteReleases _ _ _"])
    ultimately have "fst (runWithConfig w config s) =
        s1 @ Call (ListReleases (owner config) (repo config)) True #
          map (deletion config True) (staleReleases config releases) @ post \<and>
        noDeleteBeforeCreate post"
      by simp
    then show ?thesis by blast
  next
    assume "\<exists>k e. k < length (staleReleases config releases) \<and>
        deleteReleases w config releases ?s2 =
          (?s2 @ map (deletion config True) (take k (staleReleases config releases)) @
             [deletion config False (staleReleases config releases ! k)], Inl e)"
    then obtain k e where k: "k < length (staleReleases config releases)"
      and d: "deleteReleases w config releases ?s2 =
          (?s2 @ map (deletion config True) (take k (staleReleases config releases)) @
             [deletion config False (staleReleases config releases ! k)], Inl e)"
      by blast
    have "runWithConfig w config s =
        (s1 @ Call (ListReleases (owner config) (repo config)) True #
           map (deletion config True) (take k (staleReleases config releases)) @
           [deletion config False (staleReleases config releases ! k)], Inl e)"
      using run d by (simp add: bindIO_def [of "deleteReleases _ _ _"])
    with k show ?thesis by blast
  qed
qed

theorem stale_releases_deleted_witness:
  "\<exists>post. fst (runWithConfig staleReleasesWorld absentTagConfig []) =
      [Call (GetRef ''o'' ''r'' ''tags/v1'') False,
       Call (ListReleases ''o'' ''r'') True,
       Call (DeleteRelease ''o'' ''r'' 5) True,
       Call (DeleteRelease ''o'' ''r'' 7) True] @ post \<and>
      noDeleteBeforeCreate post"
proof -
  have q: "existingTagQuery staleReleasesWorld absentTagConfig [] =
      ([Call (GetRef ''o'' ''r'' ''tags/v1'') False], Inr None)"
    by (simp add: existingTagQuery_def call_def staleReleasesWorld_def absentTagWorld_def
          absentTagConfig_def notFound_def)
  have g: "\<not> ((None :: string option) \<noteq> None \<and> strategy absentTagConfig = FailFast)"
    by simp
  have l: "releasesResponse staleReleasesWorld [Call (GetRef ''o'' ''r'' ''tags/v1'') False]
      (ListReleases (owner absentTagConfig) (repo absentTagConfig)) =
      Inr [Release 5 ''v1'', Release 6 ''v0'', Release 7 ''v1'']"
    by (simp add: staleReleasesWorld_def)
  have st: "staleReleases absentTagConfig [Release 5 ''v1'', Release 6 ''v0'', Release 7 ''v1''] =
      [Release 5 ''v1'', Release 7 ''v1'']"
    by (simp add: staleReleases_def absentTagConfig_def)
  have ow: "owner absentTagConfig = ''o''" "repo absentTagConfig = ''r''"
    by (simp_all add: absentTagConfig_def)
  from stale_releases_deleted [OF q g l] show ?thesis
  proof
    assume "\<exists>post. fst (runWithConfig staleReleasesWorld absentTagConfig []) =
        [Call (GetRef ''o'' ''r'' ''tags/v1'') False] @
        Call (ListReleases (owner absentTagConfig) (repo absentTagConfig)) True #
        map (deletion absentTagConfig True)
          (staleReleases absentTagConfig
             [Release 5 ''v1'', Release 6 ''v0'', Release 7 ''v1'']) @ post \<and>
        noDeleteBeforeCreate post"
    then show ?thesis by (simp add: st deletion_def ow)
  next
    assume "\<exists>k e. k < length (staleReleases absentTagConfig
               [Release 5 ''v1'', Release 6 ''v0'', Release 7 ''v1'']) \<and>
        runWithConfig staleReleasesWorld absentTagConfig [] =
          ([Call (GetRef ''o'' ''r'' ''tags/v1'') False] @
           Call (ListReleases (owner absentTagConfig) (repo absentTagConfig)) True #
           map (deletion absentTagConfig True)
             (take k (staleReleases absentTagConfig
                [Release 5 ''v1'', Release 6 ''v0'', Release 7 ''v1''])) @
           [deletion absentTagConfig False
              (staleReleases absentTagConfig
                 [Release 5 ''v1'', Release 6 ''v0'', Release 7 ''v1''] ! k)],
           Inl e)"
    then show ?thesis by (simp add: run_staleReleases)
  qed
qed

end
